theory Spec2Isabelle
  imports Main "HOL-Library.Sublist" "HOL-Library.Word"
begin

section \<open>Magnet: command handlers and the CMake emitter\<close>

text \<open>
  A shallow embedding of \<^verbatim>\<open>CmakeEmitter.cpp\<close> and \<^verbatim>\<open>CommandHandler.cpp\<close>.
  \<^verbatim>\<open>std::string\<close> is \<^typ>\<open>string\<close>, \<^verbatim>\<open>std::vector<std::string>\<close> is
  \<^typ>\<open>string list\<close>.
\<close>

subsection \<open>Command handler properties\<close>

datatype ProjectType = Executable | StaticLibrary | DynamicLibrary

datatype Configuration = Debug | Release | Invalid

record Project =
  GetName :: string
  GetType :: ProjectType
  GetCppVersion :: int
  GetCmakeVersion :: string
  GetConfiguration :: Configuration

record CommandHandlerProps =
  nextArguments :: "string list"
  project :: Project

text \<open>
  \<^verbatim>\<open>GetArgument(uint32_t index)\<close>: the index is a 32-bit unsigned value, compared with
  \<^verbatim>\<open>nextArguments.size()\<close> as the number it denotes.
\<close>

definition GetArgument :: "CommandHandlerProps \<Rightarrow> 32 word \<Rightarrow> string" where
  "GetArgument props index =
     (if unat index \<ge> length (nextArguments props) then ''''
      else nextArguments props ! unat index)"

definition HasArguments :: "CommandHandlerProps \<Rightarrow> bool" where
  "HasArguments props = (nextArguments props \<noteq> [])"

subsection \<open>Repository names\<close>

text \<open>
  \<^verbatim>\<open>std::string::find_last_of(char)\<close> scans from the last position down to the first
  and returns the index found, or \<^verbatim>\<open>npos\<close> (here \<open>None\<close>).
\<close>

fun rfind_below :: "string \<Rightarrow> char \<Rightarrow> nat \<Rightarrow> nat option" where
  "rfind_below s c 0 = None"
| "rfind_below s c (Suc i) = (if s ! i = c then Some i else rfind_below s c i)"

definition find_last_of :: "string \<Rightarrow> char \<Rightarrow> nat option" where
  "find_last_of s c = rfind_below s c (length s)"

text \<open>
  \<^verbatim>\<open>url.substr(url.find_last_of('/') + 1)\<close>: when no slash is found the index is
  \<^verbatim>\<open>npos\<close>, the largest \<^verbatim>\<open>size_t\<close>, and \<^verbatim>\<open>npos + 1\<close> wraps around to \<open>0\<close>; otherwise
  the start is at most the length, so \<^verbatim>\<open>substr\<close> does not throw.
  \<^verbatim>\<open>name.substr(0, name.find_last_of('.'))\<close>: a count of \<^verbatim>\<open>npos\<close> takes the whole string.
\<close>

definition ExtractRepositoryName :: "string \<Rightarrow> string" where
  "ExtractRepositoryName url =
     (let start = (case find_last_of url (CHR ''/'') of None \<Rightarrow> 0 | Some i \<Rightarrow> i + 1);
          name = drop start url
      in case find_last_of name (CHR ''.'') of None \<Rightarrow> name | Some j \<Rightarrow> take j name)"

subsection \<open>The emitter\<close>

text \<open>
  A \<^verbatim>\<open>CmakeEmitter\<close> owns an output stream. Every member function appends characters
  to the stream, so the state of an emitter is the text written so far, and a member
  function is a function from that text to the extended text. The headers \<^verbatim>\<open>Core.h\<close>,
  \<^verbatim>\<open>CmakeEmitter.h\<close> and \<^verbatim>\<open>Project.h\<close> are not part of the sources at hand; what they
  fix (the version macro, the default arguments of \<^verbatim>\<open>Add_Newline\<close> and
  \<^verbatim>\<open>Add_Indentation\<close>, the text of a project type, the platform macros) is a parameter
  of the model, collected in the record \<open>Core\<close>. So is the buffering of the stream
  library: \<open>flushed core t\<close> is the part of the text \<open>t\<close>, written to a stream so far, that
  the file holds when the process is terminated without the stream being closed.
\<close>

datatype Platform = Win32 | Apple | Linux | OtherPlatform

record Core =
  MG_VERSION :: string
  defaultNewlines :: int
  defaultIndentation :: int
  GetTypeString :: "ProjectType \<Rightarrow> string"
  platform :: Platform
  flushed :: "string \<Rightarrow> string"

type_synonym emitter = string

definition End :: char where
  "End = CHR 0x0A"

definition Add_Literal :: "string \<Rightarrow> emitter \<Rightarrow> emitter" where
  "Add_Literal literal s = s @ literal"

definition Add_Indentation :: "int \<Rightarrow> emitter \<Rightarrow> emitter" where
  "Add_Indentation amount s = s @ replicate (nat amount) (CHR 0x09)"

definition Add_Newline :: "int \<Rightarrow> emitter \<Rightarrow> emitter" where
  "Add_Newline amount s = s @ replicate (nat amount) End"

definition Add_Header :: "Core \<Rightarrow> emitter \<Rightarrow> emitter" where
  "Add_Header core s =
     Add_Newline 2
       (Add_Newline 1 (s @ ''# Generated by Magnet v'' @ MG_VERSION core) @
        ''# Do not edit this file since any changes will be overwritten next time the project files are regenerated.'')"

definition Add_Comment :: "string \<Rightarrow> emitter \<Rightarrow> emitter" where
  "Add_Comment comment s = s @ ''# '' @ comment @ [End]"

definition Add_If :: "string \<Rightarrow> (emitter \<Rightarrow> emitter) \<Rightarrow> emitter \<Rightarrow> emitter" where
  "Add_If condition lambda s =
     lambda (s @ ''if('' @ condition @ '')'' @ [End]) @ ''endif()'' @ [End]"

definition Add_IfElse ::
  "string \<Rightarrow> (emitter \<Rightarrow> emitter) \<Rightarrow> (emitter \<Rightarrow> emitter) \<Rightarrow> emitter \<Rightarrow> emitter" where
  "Add_IfElse condition ifTrue ifFalse s =
     ifFalse (ifTrue (s @ ''if('' @ condition @ '')'' @ [End]) @ ''else()'' @ [End]) @
     ''endif()'' @ [End]"

definition Add_CmakeMinimumRequired :: "string \<Rightarrow> emitter \<Rightarrow> emitter" where
  "Add_CmakeMinimumRequired version s =
     s @ ''cmake_minimum_required(VERSION '' @ version @ '')'' @ [End]"

definition Add_Project :: "string \<Rightarrow> emitter \<Rightarrow> emitter" where
  "Add_Project target s = s @ ''project('' @ target @ '')'' @ [End]"

text \<open>The stream prints an \<^verbatim>\<open>int\<close> in decimal, with a minus sign when negative.\<close>

fun decimal_nat :: "nat \<Rightarrow> string" where
  "decimal_nat n =
     (if n < 10 then [char_of (48 + n)]
      else decimal_nat (n div 10) @ [char_of (48 + n mod 10)])"

definition decimal :: "int \<Rightarrow> string" where
  "decimal i = (if i < 0 then CHR ''-'' # decimal_nat (nat (- i)) else decimal_nat (nat i))"

definition Add_SetCmakeCxxStandard :: "int \<Rightarrow> emitter \<Rightarrow> emitter" where
  "Add_SetCmakeCxxStandard val s = s @ ''set(CMAKE_CXX_STANDARD '' @ decimal val @ '')'' @ [End]"

definition Add_SetCmakeArchiveOutputDirectory :: "string \<Rightarrow> emitter \<Rightarrow> emitter" where
  "Add_SetCmakeArchiveOutputDirectory val s =
     s @ ''set(CMAKE_ARCHIVE_OUTPUT_DIRECTORY '' @ val @ '')'' @ [End]"

definition Add_SetCmakeLibraryOutputDirectory :: "string \<Rightarrow> emitter \<Rightarrow> emitter" where
  "Add_SetCmakeLibraryOutputDirectory val s =
     s @ ''set(CMAKE_LIBRARY_OUTPUT_DIRECTORY '' @ val @ '')'' @ [End]"

definition Add_SetCmakeRuntimeOutputDirectory :: "string \<Rightarrow> emitter \<Rightarrow> emitter" where
  "Add_SetCmakeRuntimeOutputDirectory val s =
     s @ ''set(CMAKE_RUNTIME_OUTPUT_DIRECTORY '' @ val @ '')'' @ [End]"

definition Add_SetTargetProperties :: "string \<Rightarrow> string \<Rightarrow> string \<Rightarrow> emitter \<Rightarrow> emitter" where
  "Add_SetTargetProperties target property val s =
     s @ ''set_target_properties('' @ target @ '' PROPERTIES '' @ property @ '' '' @ val @ '')'' @
     [End]"

definition Add_AddSubdirectory :: "string \<Rightarrow> emitter \<Rightarrow> emitter" where
  "Add_AddSubdirectory source s = s @ ''add_subdirectory('' @ source @ '')'' @ [End]"

definition Add_AddSubdirectories :: "string list \<Rightarrow> emitter \<Rightarrow> emitter" where
  "Add_AddSubdirectories sources s = fold Add_AddSubdirectory sources s"

definition Add_TargetIncludeDirectories :: "string \<Rightarrow> string \<Rightarrow> string \<Rightarrow> emitter \<Rightarrow> emitter" where
  "Add_TargetIncludeDirectories target mode directory s =
     s @ ''target_include_directories('' @ target @ '' '' @ mode @ '' '' @ directory @ '')'' @ [End]"

definition Begin_TargetIncludeDirectories :: "string \<Rightarrow> string \<Rightarrow> emitter \<Rightarrow> emitter" where
  "Begin_TargetIncludeDirectories target mode s =
     s @ ''target_include_directories('' @ target @ '' '' @ mode @ [End]"

definition End_TargetIncludeDirectories :: "emitter \<Rightarrow> emitter" where
  "End_TargetIncludeDirectories s = s @ '')'' @ [End]"

definition Add_TargetLinkLibraries :: "string \<Rightarrow> string list \<Rightarrow> emitter \<Rightarrow> emitter" where
  "Add_TargetLinkLibraries target libraries s =
     fold (\<lambda>library t. t @ '' '' @ library) libraries (s @ ''target_link_libraries('' @ target) @
     '')'' @ [End]"

definition Add_AddExecutable :: "string \<Rightarrow> string list \<Rightarrow> emitter \<Rightarrow> emitter" where
  "Add_AddExecutable target sources s =
     fold (\<lambda>source t. t @ '' '' @ source) sources (s @ ''add_executable('' @ target) @
     '')'' @ [End]"

definition Add_AddLibrary :: "string \<Rightarrow> string \<Rightarrow> string list \<Rightarrow> emitter \<Rightarrow> emitter" where
  "Add_AddLibrary target type sources s =
     fold (\<lambda>source t. t @ '' '' @ source) sources
       (s @ ''add_library('' @ target @ '' '' @ type) @
     '')'' @ [End]"

text \<open>
  A deferred block (\<^verbatim>\<open>std::function<void()>\<close> capturing the emitter) is a sequence of
  emitter calls, run in the order written.
\<close>

definition run_block :: "(emitter \<Rightarrow> emitter) list \<Rightarrow> emitter \<Rightarrow> emitter" where
  "run_block calls s = fold (\<lambda>call t. call t) calls s"

text \<open>\<open>emits call t\<close>: whatever was written before, the call leaves it in place and
  writes \<open>t\<close> after it.\<close>

definition emits :: "(emitter \<Rightarrow> emitter) \<Rightarrow> string \<Rightarrow> bool" where
  "emits call t = (\<forall>s. call s = s @ t)"

subsection \<open>The file system\<close>

text \<open>
  The handlers probe and write the file system through \<^verbatim>\<open>std::filesystem\<close> and
  \<^verbatim>\<open>std::ofstream\<close>. The model is a POSIX file tree without symbolic links and without
  permissions: every entry has a canonical location (the list of names leading to it from
  the root directory) and is a regular file with its contents or a directory. The root
  directory always exists. Entries are kept in the order in which a directory walk
  reports them. The operating system limits the length of a name (\<^verbatim>\<open>NAME_MAX\<close>, 255 on
  Linux) and of a path with its terminator (\<^verbatim>\<open>PATH_MAX\<close>, 4096 on Linux); the two limits
  are part of the file system.
\<close>

datatype error = filesystem_error

datatype entry = File string | Dir

record fsys =
  cwd :: "string list"
  nodes :: "(string list \<times> entry) list"
  name_max :: nat
  path_max :: nat

definition lookup :: "fsys \<Rightarrow> string list \<Rightarrow> entry option" where
  "lookup fs c = (if c = [] then Some Dir else map_of (nodes fs) c)"

definition is_dir :: "fsys \<Rightarrow> string list \<Rightarrow> bool" where
  "is_dir fs c = (lookup fs c = Some Dir)"

text \<open>The components of a path string, separated by slashes.\<close>

fun split_path :: "string \<Rightarrow> string list" where
  "split_path [] = [[]]"
| "split_path (c # cs) =
     (if c = CHR ''/'' then [] # split_path cs
      else case split_path cs of [] \<Rightarrow> [[c]] | x # xs \<Rightarrow> (c # x) # xs)"

text \<open>
  Path resolution walks the components from a starting directory. Each component is
  looked up in a directory: when the place reached so far is not a directory the path
  names nothing (\<^verbatim>\<open>ENOENT\<close>, \<^verbatim>\<open>ENOTDIR\<close>); a component longer than \<^verbatim>\<open>NAME_MAX\<close> makes the
  lookup fail (\<^verbatim>\<open>ENAMETOOLONG\<close>); an empty component (doubled or trailing slash) and
  \<^verbatim>\<open>.\<close> stay there, \<^verbatim>\<open>..\<close> goes to the parent. A walk that comes to its end gives the
  location the path names; whether an entry exists there is decided by \<open>lookup\<close>.
\<close>

datatype resolution = At "string list" | NotFound | Failure

fun walk :: "fsys \<Rightarrow> string list \<Rightarrow> string list \<Rightarrow> resolution" where
  "walk fs cur [] = At cur"
| "walk fs cur (n # ns) =
     (if \<not> is_dir fs cur then NotFound
      else if name_max fs < length n then Failure
      else if n = [] \<or> n = ''.'' then walk fs cur ns
      else if n = ''..'' then walk fs (butlast cur) ns
      else walk fs (cur @ [n]) ns)"

text \<open>The empty path names nothing; a path that does not fit into \<^verbatim>\<open>PATH_MAX\<close> with its
  terminator fails before any lookup.\<close>

definition path_lookup :: "fsys \<Rightarrow> string \<Rightarrow> resolution" where
  "path_lookup fs p =
     (if p = [] then NotFound
      else if path_max fs \<le> length p then Failure
      else walk fs (if hd p = CHR ''/'' then [] else cwd fs) (split_path p))"

definition resolve :: "fsys \<Rightarrow> string \<Rightarrow> string list option" where
  "resolve fs p = (case path_lookup fs p of At c \<Rightarrow> Some c | NotFound \<Rightarrow> None | Failure \<Rightarrow> None)"

text \<open>
  \<^verbatim>\<open>std::filesystem::exists(path)\<close>, the overload that throws: it answers whether the
  path names an entry, of any kind, and throws \<^verbatim>\<open>filesystem_error\<close> when the lookup fails
  for another reason than the absence of the entry.
\<close>

definition fs_exists :: "fsys \<Rightarrow> string \<Rightarrow> error + bool" where
  "fs_exists fs p =
     (case path_lookup fs p of
        Failure \<Rightarrow> Inl filesystem_error
      | NotFound \<Rightarrow> Inr False
      | At c \<Rightarrow> Inr (lookup fs c \<noteq> None))"

text \<open>
  \<^verbatim>\<open>std::filesystem::path::operator/\<close> on POSIX: an absolute right operand replaces the
  left one; otherwise a separator is put between the two unless the left operand is empty
  or already ends with one.
\<close>

definition path_append :: "string \<Rightarrow> string \<Rightarrow> string" where
  "path_append p q =
     (if q \<noteq> [] \<and> hd q = CHR ''/'' then q
      else if p = [] \<or> last p = CHR ''/'' then p @ q
      else p @ ''/'' @ q)"

text \<open>
  \<^verbatim>\<open>std::filesystem::path::extension\<close> of a file name: the part from the last period
  on, where a period that starts the name does not count and the names \<^verbatim>\<open>.\<close> and \<^verbatim>\<open>..\<close>
  have no extension.
\<close>

definition extension :: "string \<Rightarrow> string" where
  "extension f =
     (if f = ''.'' \<or> f = ''..'' then []
      else case find_last_of f (CHR ''.'') of
             None \<Rightarrow> []
           | Some i \<Rightarrow> if i = 0 then [] else drop i f)"

text \<open>
  \<^verbatim>\<open>std::filesystem::recursive_directory_iterator\<close>: the locations of all entries below
  a directory, or \<open>None\<close> when the path is not an existing directory (the constructor
  throws \<^verbatim>\<open>filesystem_error\<close>).
\<close>

definition recursive_directory_iterator :: "fsys \<Rightarrow> string \<Rightarrow> string list list option" where
  "recursive_directory_iterator fs p =
     (case resolve fs p of
        None \<Rightarrow> None
      | Some c \<Rightarrow>
          if is_dir fs c then Some (filter (strict_prefix c) (map fst (nodes fs))) else None)"

text \<open>Storing contents at a location: an existing entry is overwritten in place, a new
  one is added at the end.\<close>

definition set_contents ::
  "string list \<Rightarrow> string \<Rightarrow> string list \<times> entry \<Rightarrow> string list \<times> entry" where
  "set_contents c text ke = (fst ke, if fst ke = c then File text else snd ke)"

definition put :: "string list \<Rightarrow> string \<Rightarrow> fsys \<Rightarrow> fsys" where
  "put c text fs =
     fs\<lparr>nodes := (if c \<in> fst ` set (nodes fs) then map (set_contents c text) (nodes fs)
                  else nodes fs @ [(c, File text)])\<rparr>"

text \<open>
  \<^verbatim>\<open>std::ofstream::open\<close> for writing: the path must name a location in an existing
  directory that is not itself a directory; the file is created if absent and emptied.
  On failure the stream is in a failed state and nothing is created.
\<close>

definition ofstream_open :: "string \<Rightarrow> fsys \<Rightarrow> string list option \<times> fsys" where
  "ofstream_open p fs =
     (case resolve fs p of
        None \<Rightarrow> (None, fs)
      | Some c \<Rightarrow>
          if last (split_path p) \<in> {[], ''.'', ''..''} \<or> is_dir fs c then (None, fs)
          else (Some c, put c [] fs))"

text \<open>
  The life of a \<^verbatim>\<open>CmakeEmitter\<close> on a path: the constructor opens the stream, the body
  writes to it (and may probe the file system while the file is open), the destructor
  closes it. Output to a stream that failed to open is discarded.
\<close>

definition with_emitter :: "string \<Rightarrow> (fsys \<Rightarrow> emitter \<Rightarrow> emitter) \<Rightarrow> fsys \<Rightarrow> fsys" where
  "with_emitter path body fs =
     (case ofstream_open path fs of
        (None, fs') \<Rightarrow> fs'
      | (Some c, fs') \<Rightarrow> put c (body fs' []) fs')"

text \<open>
  The same for a body that probes the file system with calls that can throw. The body
  runs whether or not the stream opened. When it throws, nothing catches the exception:
  the process is terminated, the destructor does not run, and the file holds what had
  left the buffer of the stream.
\<close>

definition with_probing_emitter ::
  "Core \<Rightarrow> string \<Rightarrow> (fsys \<Rightarrow> emitter \<Rightarrow> (error \<times> emitter) + emitter) \<Rightarrow> fsys \<Rightarrow>
   (error \<times> fsys) + fsys" where
  "with_probing_emitter core path body fs =
     (case ofstream_open path fs of
        (None, fs') \<Rightarrow>
          (case body fs' [] of Inl (e, t) \<Rightarrow> Inl (e, fs') | Inr t \<Rightarrow> Inr fs')
      | (Some c, fs') \<Rightarrow>
          (case body fs' [] of
             Inl (e, t) \<Rightarrow> Inl (e, put c (flushed core t) fs')
           | Inr t \<Rightarrow> Inr (put c t fs')))"

text \<open>Reading a file back: its contents, if the path names a regular file.\<close>

definition read_file :: "fsys \<Rightarrow> string \<Rightarrow> string option" where
  "read_file fs p =
     (case resolve fs p of
        None \<Rightarrow> None
      | Some c \<Rightarrow> (case lookup fs c of Some (File text) \<Rightarrow> Some text | _ \<Rightarrow> None))"

subsection \<open>The world of a command\<close>

text \<open>
  What a command can read and change: the file tree, the persisted dependency document
  \<^verbatim>\<open>.magnet/dependencies.yaml\<close>, the persisted default configuration, and the console.
  The two persisted documents are kept apart from the file tree and are given by the
  value they encode; \<open>dependenciesWritable\<close> says whether the dependency document can be
  opened for writing.
\<close>

datatype logline = LOG string | LOGNH string

record world =
  files :: fsys
  dependencies :: "string list"
  dependenciesWritable :: bool
  defaultConfiguration :: Configuration
  console :: "logline list"

definition MG_LOG :: "string \<Rightarrow> world \<Rightarrow> world" where
  "MG_LOG message w = w\<lparr>console := console w @ [LOG message]\<rparr>"

definition MG_LOGNH :: "string \<Rightarrow> world \<Rightarrow> world" where
  "MG_LOGNH message w = w\<lparr>console := console w @ [LOGNH message]\<rparr>"

text \<open>
  Modelled from the spec: \<^verbatim>\<open>Configuration::FromString\<close>, \<^verbatim>\<open>IsValid\<close> and \<^verbatim>\<open>ToString\<close>
  (class \<^verbatim>\<open>Configuration\<close> is not in the sources at hand). Parsing is a case-sensitive match
  against \<^verbatim>\<open>Debug\<close> and \<^verbatim>\<open>Release\<close>; any other text yields the \<^verbatim>\<open>Invalid\<close> sentinel.
\<close>

definition FromString :: "string \<Rightarrow> Configuration" where
  "FromString text =
     (if text = ''Debug'' then Debug else if text = ''Release'' then Release else Invalid)"

definition IsValid :: "Configuration \<Rightarrow> bool" where
  "IsValid c = (c \<noteq> Invalid)"

fun ToString :: "Configuration \<Rightarrow> string" where
  "ToString Debug = ''Debug''"
| "ToString Release = ''Release''"
| "ToString Invalid = ''Invalid''"

text \<open>
  Modelled from the spec: \<^verbatim>\<open>Application::SetDefaultConfiguration\<close> (class \<^verbatim>\<open>Application\<close>
  is declared but not defined in the sources at hand). It is the explicit operation that
  sets the persisted default configuration.
\<close>

definition SetDefaultConfiguration :: "Configuration \<Rightarrow> world \<Rightarrow> world" where
  "SetDefaultConfiguration c w = w\<lparr>defaultConfiguration := c\<rparr>"

text \<open>
  Modelled from the spec: \<^verbatim>\<open>Application::GetDependencies\<close> loads the persisted dependency
  document, an ordered list of names.
\<close>

definition GetDependencies :: "world \<Rightarrow> string list" where
  "GetDependencies w = dependencies w"

text \<open>
  Modelled from the spec: \<^verbatim>\<open>Application::IsRootLevel\<close> detects the project root by the
  presence of the descriptor's storage marker, the entry \<^verbatim>\<open>.magnet\<close>. It answers yes
  when the lookup of that entry finds it, and no otherwise.
\<close>

definition IsRootLevel :: "world \<Rightarrow> bool" where
  "IsRootLevel w = (fs_exists (files w) ''.magnet'' = Inr True)"

text \<open>
  An external program run through \<^verbatim>\<open>std::system\<close> is a parameter \<open>sys\<close> of the handlers:
  given the command line and the file tree, it returns its exit status and the file tree
  it leaves behind.
\<close>

type_synonym system = "string \<Rightarrow> fsys \<Rightarrow> int \<times> fsys"

subsection \<open>Helpers of the command handler\<close>

definition RequireProjectName :: "CommandHandlerProps \<Rightarrow> world \<Rightarrow> bool \<times> world" where
  "RequireProjectName props w =
     (if GetName (project props) = [] then
        (False, MG_LOG ''Command failed due to unknown project name.'' w)
      else (True, w))"

definition ExecuteCommand :: "system \<Rightarrow> string \<Rightarrow> string \<Rightarrow> world \<Rightarrow> bool \<times> world" where
  "ExecuteCommand sys command errorMessage w =
     (let (status, fs') = sys command (files w);
          w' = w\<lparr>files := fs'\<rparr>
      in if status \<noteq> 0 then (False, MG_LOG errorMessage w') else (True, w'))"

text \<open>\<^verbatim>\<open>WriteDependencyFile\<close> with its default path, \<^verbatim>\<open>.magnet/dependencies.yaml\<close>.\<close>

definition WriteDependencyFile :: "string list \<Rightarrow> world \<Rightarrow> bool \<times> world" where
  "WriteDependencyFile deps w =
     (if \<not> dependenciesWritable w then
        (False, MG_LOG ''Failed to update dependencies.yaml file.'' w)
      else (True, w\<lparr>dependencies := deps\<rparr>))"

subsection \<open>The three generated files\<close>

definition RootCMakeFile :: "Core \<Rightarrow> CommandHandlerProps \<Rightarrow> (emitter \<Rightarrow> emitter) list" where
  "RootCMakeFile core props =
     [Add_Header core,
      Add_CmakeMinimumRequired (GetCmakeVersion (project props)),
      Add_Project (GetName (project props)),
      Add_Newline (defaultNewlines core),
      Add_SetCmakeCxxStandard (GetCppVersion (project props)),
      Add_SetCmakeArchiveOutputDirectory ''${PROJECT_SOURCE_DIR}/${PROJECT_NAME}/Binaries'',
      Add_SetCmakeLibraryOutputDirectory ''${PROJECT_SOURCE_DIR}/${PROJECT_NAME}/Binaries'',
      Add_SetCmakeRuntimeOutputDirectory ''${PROJECT_SOURCE_DIR}/${PROJECT_NAME}/Binaries'',
      Add_Newline (defaultNewlines core),
      Add_AddSubdirectory ''${PROJECT_NAME}/Source'',
      Add_AddSubdirectory ''${PROJECT_NAME}/Dependencies'',
      Add_Newline (defaultNewlines core),
      Add_TargetIncludeDirectories (GetName (project props)) ''PUBLIC''
        ''${PROJECT_SOURCE_DIR}/${PROJECT_NAME}/Source'',
      Add_Newline (defaultNewlines core),
      Add_If ''MSVC''
        (run_block
          [Add_Indentation (defaultIndentation core),
           Add_Literal
             (''set_property(DIRECTORY ${CMAKE_CURRENT_SOURCE_DIR} PROPERTY VS_STARTUP_PROJECT '' @
              GetName (project props) @ '')''),
           Add_Newline (defaultNewlines core)])]"

definition GenerateRootCMakeFile :: "Core \<Rightarrow> CommandHandlerProps \<Rightarrow> world \<Rightarrow> bool \<times> world" where
  "GenerateRootCMakeFile core props w =
     (let (ok, w1) = RequireProjectName props w
      in if \<not> ok then (False, w1)
         else (True,
               w1\<lparr>files :=
                    with_emitter ''CMakeLists.txt'' (\<lambda>fs. run_block (RootCMakeFile core props))
                      (files w1)\<rparr>))"

definition SourceCMakeFile ::
  "Core \<Rightarrow> CommandHandlerProps \<Rightarrow> string list \<Rightarrow> string list \<Rightarrow> (emitter \<Rightarrow> emitter) list" where
  "SourceCMakeFile core props sourceFiles deps =
     (let projectName = GetName (project props);
          isExecutable = (GetType (project props) = Executable);
          ifTrue = run_block [Add_SetTargetProperties projectName ''LINK_FLAGS'' ''-Wl, -rpath, ./''];
          ifFalse =
            run_block
              [Add_SetTargetProperties projectName ''VS_DEBUGGER_WORKING_DIRECTORY''
                 ''${CMAKE_SOURCE_DIR}/${PROJECT_NAME}/Binaries/Debug'']
      in [Add_Header core,
          Add_CmakeMinimumRequired (GetCmakeVersion (project props)),
          Add_Project projectName,
          Add_SetCmakeCxxStandard (GetCppVersion (project props)),
          (if isExecutable then Add_AddExecutable projectName sourceFiles
           else Add_AddLibrary projectName (GetTypeString core (GetType (project props)))
                  sourceFiles),
          Add_Newline (defaultNewlines core),
          Add_Comment ''Set rpath relative to app'',
          Add_IfElse ''NOT MSVC'' ifTrue ifFalse,
          Add_Newline (defaultNewlines core),
          Add_Comment ''Precompiled headers'',
          Add_Comment ''target_precompile_headers(${PROJECT_NAME} PUBLIC PCH.h)'',
          Add_Newline (defaultNewlines core)] @
         (if deps \<noteq> [] then [Add_TargetLinkLibraries projectName deps] else []))"

text \<open>The source files found by the recursive walk: the bare file name of every entry
  whose extension is \<^verbatim>\<open>.cpp\<close>, \<^verbatim>\<open>.h\<close> or \<^verbatim>\<open>.hpp\<close>, in the order of the walk.\<close>

definition collect_sources :: "string list list \<Rightarrow> string list" where
  "collect_sources found =
     map last
       (filter (\<lambda>path. extension (last path) = ''.cpp'' \<or> extension (last path) = ''.h'' \<or>
                        extension (last path) = ''.hpp'') found)"

definition GenerateCMakeFiles ::
  "Core \<Rightarrow> CommandHandlerProps \<Rightarrow> world \<Rightarrow> (error \<times> world) + (bool \<times> world)" where
  "GenerateCMakeFiles core props w =
     (let (ok, w1) = RequireProjectName props w
      in if \<not> ok then Inr (False, w1)
         else
           let projectName = GetName (project props);
               sourceFilesPath = projectName @ ''/Source''
           in case recursive_directory_iterator (files w1) sourceFilesPath of
                None \<Rightarrow> Inl (filesystem_error, w1)
              | Some found \<Rightarrow>
                  Inr (True,
                       w1\<lparr>files :=
                            with_emitter (projectName @ ''/Source/CMakeLists.txt'')
                              (\<lambda>fs. run_block
                                 (SourceCMakeFile core props (collect_sources found)
                                    (GetDependencies w1)))
                              (files w1)\<rparr>))"

text \<open>
  The loop over the dependencies in \<^verbatim>\<open>GenerateDependencyCMakeFiles\<close>. Each pass probes
  the file system twice; a probe that throws ends the function with the text written so
  far.
\<close>

fun include_entries ::
  "Core \<Rightarrow> fsys \<Rightarrow> string \<Rightarrow> string list \<Rightarrow> emitter \<Rightarrow> (error \<times> emitter) + emitter" where
  "include_entries core fs projectName [] s = Inr s"
| "include_entries core fs projectName (package # rest) s =
     (let packagePath = path_append (path_append projectName ''Dependencies'') package
      in case fs_exists fs packagePath of
           Inl e \<Rightarrow> Inl (e, s)
         | Inr found \<Rightarrow>
             if \<not> found then include_entries core fs projectName rest s
             else
               let s1 = run_block
                          [Add_Indentation (defaultIndentation core),
                           Add_Literal [CHR 0x22],
                           Add_Literal package] s
               in case fs_exists fs (path_append packagePath ''include'') of
                    Inl e \<Rightarrow> Inl (e, s1)
                  | Inr inc \<Rightarrow>
                      include_entries core fs projectName rest
                        (run_block
                           ((if inc then [Add_Literal ''/include''] else []) @
                            [Add_Literal [CHR 0x22],
                             Add_Newline (defaultNewlines core)]) s1))"

definition DependencyCMakeFile ::
  "Core \<Rightarrow> CommandHandlerProps \<Rightarrow> string list \<Rightarrow> fsys \<Rightarrow> emitter \<Rightarrow>
   (error \<times> emitter) + emitter" where
  "DependencyCMakeFile core props deps fs s =
     (let projectName = GetName (project props);
          s0 = run_block
                 [Add_Header core,
                  Add_CmakeMinimumRequired (GetCmakeVersion (project props)),
                  Add_Project projectName,
                  Add_Newline (defaultNewlines core)] s
      in if deps \<noteq> [] then
           (case include_entries core fs projectName deps
                   (run_block
                      [Add_AddSubdirectories deps,
                       Add_Newline (defaultNewlines core),
                       Begin_TargetIncludeDirectories projectName ''PUBLIC''] s0) of
              Inl x \<Rightarrow> Inl x
            | Inr s1 \<Rightarrow> Inr (End_TargetIncludeDirectories s1))
         else Inr s0)"

definition GenerateDependencyCMakeFiles ::
  "Core \<Rightarrow> CommandHandlerProps \<Rightarrow> world \<Rightarrow> (error \<times> world) + (bool \<times> world)" where
  "GenerateDependencyCMakeFiles core props w =
     (let (ok, w1) = RequireProjectName props w
      in if \<not> ok then Inr (False, w1)
         else
           let projectName = GetName (project props)
           in case with_probing_emitter core (projectName @ ''/Dependencies/CMakeLists.txt'')
                     (DependencyCMakeFile core props (GetDependencies w1)) (files w1) of
                Inl (e, fs') \<Rightarrow> Inl (e, w1\<lparr>files := fs'\<rparr>)
              | Inr fs' \<Rightarrow> Inr (True, w1\<lparr>files := fs'\<rparr>))"

subsection \<open>The command handlers\<close>

text \<open>
  A handler returns the world it leaves behind. The directory walk of
  \<^verbatim>\<open>GenerateCMakeFiles\<close> and the probes of \<^verbatim>\<open>GenerateDependencyCMakeFiles\<close> and of
  \<^verbatim>\<open>HandleGenerateCommand\<close> can throw a \<^verbatim>\<open>filesystem_error\<close> that nothing catches; a
  handler that ends this way returns \<open>Inl\<close> with the world at that moment.
\<close>

type_synonym outcome = "(error \<times> world) + world"

definition final_world :: "outcome \<Rightarrow> world" where
  "final_world r = (case r of Inl (e, w) \<Rightarrow> w | Inr w \<Rightarrow> w)"

definition HandleConfigCommand :: "CommandHandlerProps \<Rightarrow> world \<Rightarrow> world" where
  "HandleConfigCommand props w =
     (let nextArgument = GetArgument props 0
      in if nextArgument = [] then MG_LOG ''Usage: magnet config <configuration>'' w
         else
           let configuration = FromString nextArgument;
               w1 = SetDefaultConfiguration configuration w
           in if \<not> IsValid configuration then MG_LOG ''Usage: magnet config [Debug/Release]'' w1
              else MG_LOG (''Successfully changed default configuration to '' @
                           ToString configuration @ ''.'') w1)"

text \<open>
  The presence check of \<^verbatim>\<open>HandleGenerateCommand\<close>. The loop probes the dependencies in
  the order of the dependency list and reports each missing one; a probe that throws ends
  the handler there.
\<close>

fun check_dependencies ::
  "string \<Rightarrow> string list \<Rightarrow> bool \<Rightarrow> world \<Rightarrow> (error \<times> world) + (bool \<times> world)" where
  "check_dependencies dependenciesPath [] hasMissingDependencies w =
     Inr (hasMissingDependencies, w)"
| "check_dependencies dependenciesPath (package # rest) hasMissingDependencies w =
     (let path = path_append dependenciesPath package
      in case fs_exists (files w) path of
           Inl e \<Rightarrow> Inl (e, w)
         | Inr found \<Rightarrow>
             if \<not> found then
               check_dependencies dependenciesPath rest True
                 (MG_LOG (''Missing dependency: '' @ path) w)
             else check_dependencies dependenciesPath rest hasMissingDependencies w)"

definition missing_dependencies ::
  "string \<Rightarrow> world \<Rightarrow> (error \<times> world) + (bool \<times> world)" where
  "missing_dependencies projectName w =
     (let dependenciesPath = projectName @ ''/Dependencies''
      in case fs_exists (files w) dependenciesPath of
           Inl e \<Rightarrow> Inl (e, w)
         | Inr found \<Rightarrow>
             if found then check_dependencies dependenciesPath (GetDependencies w) False w
             else Inr (False, w))"

text \<open>The three generator calls of \<^verbatim>\<open>HandleGenerateCommand\<close>, whose results it ignores.\<close>

definition generate_files :: "Core \<Rightarrow> CommandHandlerProps \<Rightarrow> world \<Rightarrow> outcome" where
  "generate_files core props w =
     (let w1 = snd (GenerateRootCMakeFile core props w)
      in case GenerateCMakeFiles core props w1 of
           Inl e \<Rightarrow> Inl e
         | Inr (r, w2) \<Rightarrow>
             (case GenerateDependencyCMakeFiles core props w2 of
                Inl e \<Rightarrow> Inl e
              | Inr (r', w3) \<Rightarrow> Inr w3))"

definition generator_option :: "Platform \<Rightarrow> string" where
  "generator_option pf =
     (case pf of
        Win32 \<Rightarrow> ''-G '' @ [CHR 0x22] @ ''Visual Studio 16 2019'' @ [CHR 0x22]
      | Apple \<Rightarrow> ''-G Xcode''
      | Linux \<Rightarrow> ''-G '' @ [CHR 0x22] @ ''Unix Makefiles'' @ [CHR 0x22]
      | OtherPlatform \<Rightarrow> [])"

text \<open>What \<^verbatim>\<open>HandleGenerateCommand\<close> does once the presence check has found nothing
  missing: the three generator calls, then cmake.\<close>

definition run_generation ::
  "Core \<Rightarrow> system \<Rightarrow> CommandHandlerProps \<Rightarrow> world \<Rightarrow> outcome" where
  "run_generation core sys props w =
     (case generate_files core props w of
        Inl e \<Rightarrow> Inl e
      | Inr w3 \<Rightarrow>
          let generateCommand =
                ''cmake -S . -B '' @ GetName (project props) @ ''/Build '' @
                generator_option (platform core);
              (ran, w4) =
                ExecuteCommand sys generateCommand
                  ''CMake failed to generate project files. See messages above for more information.''
                  w3
          in if \<not> ran then Inr w4
             else Inr (MG_LOG (''Successfully generated project files. Run '' @
                               [CHR 0x60] @ ''magnet build'' @ [CHR 0x60] @ '' next.'')
                         w4))"

definition HandleGenerateCommand ::
  "Core \<Rightarrow> system \<Rightarrow> CommandHandlerProps \<Rightarrow> world \<Rightarrow> outcome" where
  "HandleGenerateCommand core sys props w0 =
     (let w = MG_LOG ''Generating project files...'' w0
      in if \<not> IsRootLevel w then
           Inr (MG_LOG ''In order to generate, run this command at the root of your project, where .magnet can be found.'' w)
         else
           let (ok, w1) = RequireProjectName props w
           in if \<not> ok then Inr w1
              else
                case missing_dependencies (GetName (project props)) w1 of
                  Inl e \<Rightarrow> Inl e
                | Inr (hasMissingDependencies, w2) \<Rightarrow>
                    if hasMissingDependencies then
                      Inr (MG_LOG (''Generate failed due to missing dependencies. Run '' @
                                   [CHR 0x60] @ ''magnet pull'' @ [CHR 0x60] @
                                   '' to install them.'') w2)
                    else run_generation core sys props w2)"

definition HandlePullListCommand :: "CommandHandlerProps \<Rightarrow> world \<Rightarrow> world" where
  "HandlePullListCommand props w =
     (let deps = GetDependencies w
      in if deps = [] then MG_LOG ''No dependencies installed.'' w
         else fold MG_LOGNH deps (MG_LOG ''Here are all the installed dependencies:'' w))"

text \<open>
  \<^verbatim>\<open>nextArgument.find("https://") != 0\<close>: the position of the first occurrence is zero
  exactly when the argument starts with the scheme; otherwise the argument is taken as a
  GitHub repository.
\<close>

definition complete_url :: "string \<Rightarrow> string" where
  "complete_url nextArgument =
     (if \<not> prefix ''https://'' nextArgument then ''https://github.com/'' @ nextArgument
      else nextArgument)"

definition HandlePullCommand ::
  "Core \<Rightarrow> system \<Rightarrow> CommandHandlerProps \<Rightarrow> world \<Rightarrow> outcome" where
  "HandlePullCommand core sys props w =
     (let nextArgument = GetArgument props 0
      in if nextArgument = [] then
           let (ok, w1) =
                 ExecuteCommand sys ''git submodule update --init --recursive''
                   ''Failed to install dependencies. See messages above for more information.'' w
           in if \<not> ok then Inr w1
              else HandleGenerateCommand core sys props
                     (MG_LOG ''Successfully installed all dependencies.'' w1)
         else
           let (named, w1) = RequireProjectName props w
           in if \<not> named then Inr w1
              else if nextArgument = ''--list'' then Inr (HandlePullListCommand props w1)
              else if nextArgument = ''--help'' then
                Inr (MG_LOGNH ''       magnet pull --list''
                       (MG_LOGNH ''Usage: magnet pull <url>'' w1))
              else
                let url = complete_url nextArgument;
                    name = ExtractRepositoryName url;
                    installPath = GetName (project props) @ ''/Dependencies/'' @ name;
                    command = ''git submodule add '' @ url @ '' '' @ installPath;
                    (ok, w2) =
                      ExecuteCommand sys command
                        ''Failed to install dependency. See messages above for more information.''
                        w1
                in if \<not> ok then Inr w2
                   else
                     let deps = GetDependencies w2 @ [name];
                         w3 = snd (WriteDependencyFile deps w2)
                     in HandleGenerateCommand core sys props
                          (MG_LOG (''Installed new dependency: '' @ name) w3))"

definition HandleRemoveCommand ::
  "Core \<Rightarrow> system \<Rightarrow> CommandHandlerProps \<Rightarrow> world \<Rightarrow> outcome" where
  "HandleRemoveCommand core sys props w =
     (let dependency = GetArgument props 0
      in if dependency = [] then Inr (MG_LOG ''Usage: magnet remove <dependency>'' w)
         else
           let (named, w1) = RequireProjectName props w
           in if \<not> named then Inr w1
              else
                let installPath = GetName (project props) @ ''/Dependencies/'' @ dependency;
                    failed = ''Failed to remove dependency. See messages above for more information.'';
                    (ok1, w2) = ExecuteCommand sys (''git submodule deinit -f '' @ installPath) failed w1
                in if \<not> ok1 then Inr w2
                   else
                     let (ok2, w3) = ExecuteCommand sys (''git rm -f '' @ installPath) failed w2
                     in if \<not> ok2 then Inr w3
                        else
                          let (ok3, w4) =
                                ExecuteCommand sys (''rm -rf .git/modules/'' @ installPath) failed w3
                          in if \<not> ok3 then Inr w4
                             else
                               let deps = removeAll dependency (GetDependencies w4);
                                   w5 = snd (WriteDependencyFile deps w4)
                               in HandleGenerateCommand core sys props
                                    (MG_LOG (''Removed dependency: '' @ dependency) w5))"

definition HandleSwitchCommand ::
  "Core \<Rightarrow> system \<Rightarrow> CommandHandlerProps \<Rightarrow> world \<Rightarrow> outcome" where
  "HandleSwitchCommand core sys props w =
     (let dependency = GetArgument props 0;
          branch = GetArgument props 1
      in if dependency = [] \<or> branch = [] then
           Inr (MG_LOG ''Usage: magnet switch <dependency> <branch>'' w)
         else
           let (named, w1) = RequireProjectName props w
           in if \<not> named then Inr w1
              else
                let installPath =
                      path_append (path_append (GetName (project props)) ''Dependencies'') dependency;
                    failed = ''Failed to switch dependency branch. See messages above for more information.'';
                    (ok1, w2) =
                      ExecuteCommand sys (''git -C '' @ installPath @ '' checkout '' @ branch) failed w1
                in if \<not> ok1 then Inr w2
                   else
                     let (ok2, w3) = ExecuteCommand sys (''git add '' @ installPath) failed w2
                     in if \<not> ok2 then Inr w3
                        else HandleGenerateCommand core sys props
                               (MG_LOG (''Switched '' @ dependency @ '' branch to: '' @ branch) w3))"

subsection \<open>Notions used in the statements\<close>

text \<open>
  The name of a repository as a text operation on the URL: the part after the last
  slash, cut before its last period.
\<close>

definition after_last :: "char \<Rightarrow> string \<Rightarrow> string" where
  "after_last c s = rev (takeWhile (\<lambda>x. x \<noteq> c) (rev s))"

definition cut_from_last :: "char \<Rightarrow> string \<Rightarrow> string" where
  "cut_from_last c s = (if c \<in> set s then rev (tl (dropWhile (\<lambda>x. x \<noteq> c) (rev s))) else s)"

definition repository_name :: "string \<Rightarrow> string" where
  "repository_name url = cut_from_last (CHR ''.'') (after_last (CHR ''/'') url)"

text \<open>\<open>extends w w'\<close>: from \<open>w\<close> to \<open>w'\<close> the persisted documents are untouched and the
  console has only grown.\<close>

definition extends :: "world \<Rightarrow> world \<Rightarrow> bool" where
  "extends w w' =
     (dependencies w' = dependencies w \<and> dependenciesWritable w' = dependenciesWritable w \<and>
      defaultConfiguration w' = defaultConfiguration w \<and> prefix (console w) (console w'))"

text \<open>\<open>stops_with w message r\<close>: the handler returned, the dependency document is as in
  \<open>w\<close>, and the only line added to the console is \<open>message\<close>.\<close>

definition stops_with :: "world \<Rightarrow> string \<Rightarrow> outcome \<Rightarrow> bool" where
  "stops_with w message r =
     (case r of
        Inl x \<Rightarrow> False
      | Inr w' \<Rightarrow> dependencies w' = dependencies w \<and> console w' = console w @ [LOG message])"

text \<open>One run of \<^verbatim>\<open>magnet pull <url>\<close> in a project, and the world it leaves.\<close>

definition install :: "Core \<Rightarrow> system \<Rightarrow> Project \<Rightarrow> string \<Rightarrow> world \<Rightarrow> world" where
  "install core sys proj url w =
     final_world (HandlePullCommand core sys \<lparr>nextArguments = [url], project = proj\<rparr> w)"

text \<open>
  \<open>install_succeeds sys proj url w\<close>: the run of \<^verbatim>\<open>magnet pull <url>\<close> in the world \<open>w\<close> comes
  to write the dependency document, and writes it: the argument is neither empty nor one
  of the two options, the project has a name, \<^verbatim>\<open>git submodule add\<close> exits with status
  zero, and the document can be opened for writing.
\<close>

definition install_succeeds :: "system \<Rightarrow> Project \<Rightarrow> string \<Rightarrow> world \<Rightarrow> bool" where
  "install_succeeds sys proj url w =
     (url \<noteq> [] \<and> url \<noteq> ''--list'' \<and> url \<noteq> ''--help'' \<and> GetName proj \<noteq> [] \<and>
      fst (sys (''git submodule add '' @ complete_url url @ '' '' @ GetName proj @
                ''/Dependencies/'' @ ExtractRepositoryName (complete_url url)) (files w)) = 0 \<and>
      dependenciesWritable w)"

text \<open>The names of those runs in a sequence of installs that succeed, each run starting in
  the world the one before it left.\<close>

fun recorded :: "Core \<Rightarrow> system \<Rightarrow> Project \<Rightarrow> string list \<Rightarrow> world \<Rightarrow> string list" where
  "recorded core sys proj [] w = []"
| "recorded core sys proj (url # urls) w =
     (if install_succeeds sys proj url w then [ExtractRepositoryName (complete_url url)] else []) @
     recorded core sys proj urls (install core sys proj url w)"

text \<open>
  The presence check of generate stops at the first dependency whose probe throws:
  \<open>probed\<close> are the dependencies before it (all of them when no probe throws), and
  \<open>missing\<close> are those among some dependencies whose probe answers that nothing is there.
\<close>

definition probed :: "fsys \<Rightarrow> string \<Rightarrow> string list \<Rightarrow> string list" where
  "probed fs dependenciesPath deps =
     takeWhile (\<lambda>package. \<not> isl (fs_exists fs (path_append dependenciesPath package))) deps"

definition missing :: "fsys \<Rightarrow> string \<Rightarrow> string list \<Rightarrow> string list" where
  "missing fs dependenciesPath deps =
     filter (\<lambda>package. fs_exists fs (path_append dependenciesPath package) = Inr False) deps"

text \<open>
  \<open>probes_complete fs projectName deps\<close>: none of the probes that the loop of
  \<^verbatim>\<open>GenerateDependencyCMakeFiles\<close> makes for the dependencies \<open>deps\<close> throws. The loop
  probes the directory of each dependency and, when there is one, its entry
  \<^verbatim>\<open>include\<close>.
\<close>

definition probes_complete :: "fsys \<Rightarrow> string \<Rightarrow> string list \<Rightarrow> bool" where
  "probes_complete fs projectName deps =
     list_all
       (\<lambda>package.
          let packagePath = path_append (path_append projectName ''Dependencies'') package
          in fs_exists fs packagePath = Inr False \<or>
             fs_exists fs packagePath = Inr True \<and>
             \<not> isl (fs_exists fs (path_append packagePath ''include'')))
       deps"

text \<open>The line of a dependency in the include-directory block, when its probes complete.\<close>

definition include_line :: "Core \<Rightarrow> fsys \<Rightarrow> string \<Rightarrow> string \<Rightarrow> string" where
  "include_line core fs projectName package =
     (let packagePath = path_append (path_append projectName ''Dependencies'') package
      in if fs_exists fs packagePath = Inr True then
           replicate (nat (defaultIndentation core)) (CHR 0x09) @ [CHR 0x22] @ package @
           (if fs_exists fs (path_append packagePath ''include'') = Inr True then ''/include''
            else []) @
           [CHR 0x22] @ replicate (nat (defaultNewlines core)) End
         else [])"

text \<open>The world in which a generator call ends, whether it returns or throws.\<close>

definition ending :: "(error \<times> world) + (bool \<times> world) \<Rightarrow> world" where
  "ending r = (case r of Inl (e, w) \<Rightarrow> w | Inr (b, w) \<Rightarrow> w)"

text \<open>The location at which a stream opens for writing, if it does, and storing at such
  an optional location.\<close>

definition open_loc :: "fsys \<Rightarrow> string \<Rightarrow> string list option" where
  "open_loc fs p = fst (ofstream_open p fs)"

fun put_opt :: "string list option \<Rightarrow> string \<Rightarrow> fsys \<Rightarrow> fsys" where
  "put_opt None text fs = fs"
| "put_opt (Some c) text fs = put c text fs"

text \<open>A call is appending when it only writes after what is already there.\<close>

definition appending :: "(emitter \<Rightarrow> emitter) \<Rightarrow> bool" where
  "appending call = (\<exists>t. emits call t)"

text \<open>\<open>safe fs l\<close>: storing at the optional location \<open>l\<close> does not replace a directory.\<close>

fun safe :: "fsys \<Rightarrow> string list option \<Rightarrow> bool" where
  "safe fs None = True"
| "safe fs (Some c) = (\<not> is_dir fs c)"

text \<open>Overwriting the contents of the entries at an optional location.\<close>

fun set_opt :: "string list option \<Rightarrow> string \<Rightarrow> string list \<times> entry \<Rightarrow> string list \<times> entry" where
  "set_opt None text ke = ke"
| "set_opt (Some c) text ke = set_contents c text ke"



subsection \<open>Example data\<close>

definition example_project :: Project where
  "example_project =
     \<lparr>GetName = ''app'', GetType = StaticLibrary, GetCppVersion = 17,
      GetCmakeVersion = ''3.16'', GetConfiguration = Debug\<rparr>"

definition example_core :: Core where
  "example_core =
     \<lparr>MG_VERSION = ''1.0'', defaultNewlines = 1, defaultIndentation = 1,
      GetTypeString = (\<lambda>t. case t of Executable \<Rightarrow> ''Executable''
                              | StaticLibrary \<Rightarrow> ''StaticLibrary''
                              | DynamicLibrary \<Rightarrow> ''DynamicLibrary''),
      platform = Linux, flushed = (\<lambda>t. [])\<rparr>"

text \<open>A project \<^verbatim>\<open>app\<close> at its root, with one source file and the dependency \<^verbatim>\<open>A\<close>
  installed.\<close>

definition example_files :: fsys where
  "example_files =
     \<lparr>cwd = [''work''],
      nodes = [([''work''], Dir),
               ([''work'', ''.magnet''], Dir),
               ([''work'', ''app''], Dir),
               ([''work'', ''app'', ''Source''], Dir),
               ([''work'', ''app'', ''Source'', ''main.cpp''], File ''int main() {}''),
               ([''work'', ''app'', ''Dependencies''], Dir),
               ([''work'', ''app'', ''Dependencies'', ''A''], Dir),
               ([''work'', ''app'', ''Dependencies'', ''A'', ''include''], Dir)],
      name_max = 255, path_max = 4096\<rparr>"

definition example_world :: world where
  "example_world =
     \<lparr>files = example_files, dependencies = [''A''], dependenciesWritable = True,
      defaultConfiguration = Debug, console = []\<rparr>"

text \<open>External programs that always succeed, or always fail, and leave the files alone.\<close>

definition succeeding :: system where
  "succeeding command fs = (0, fs)"

definition failing :: system where
  "failing command fs = (1, fs)"

text \<open>The example project with a second dependency \<^verbatim>\<open>H\<close>, a single header: its directory
  holds a regular file named \<^verbatim>\<open>include\<close>.\<close>

definition header_files :: fsys where
  "header_files =
     \<lparr>cwd = [''work''],
      nodes = [([''work''], Dir),
               ([''work'', ''.magnet''], Dir),
               ([''work'', ''app''], Dir),
               ([''work'', ''app'', ''Source''], Dir),
               ([''work'', ''app'', ''Source'', ''main.cpp''], File ''int main() {}''),
               ([''work'', ''app'', ''Dependencies''], Dir),
               ([''work'', ''app'', ''Dependencies'', ''A''], Dir),
               ([''work'', ''app'', ''Dependencies'', ''A'', ''include''], Dir),
               ([''work'', ''app'', ''Dependencies'', ''H''], Dir),
               ([''work'', ''app'', ''Dependencies'', ''H'', ''include''],
                File ''#pragma once'')],
      name_max = 255, path_max = 4096\<rparr>"

definition header_world :: world where
  "header_world =
     \<lparr>files = header_files, dependencies = [''A'', ''H''], dependenciesWritable = True,
      defaultConfiguration = Debug, console = []\<rparr>"

text \<open>The example project on a file system that limits a name to 14 characters and a path
  to 256 (the least that POSIX allows), with three dependencies declared and none of them
  installed; the name of the second is longer than the limit.\<close>

definition cramped_world :: world where
  "cramped_world =
     \<lparr>files = example_files\<lparr>name_max := 14, path_max := 256\<rparr>,
      dependencies = [''B'', ''a-dependency-with-a-long-name'', ''C''],
      dependenciesWritable = True, defaultConfiguration = Debug, console = []\<rparr>"

text \<open>A machine on which \<^verbatim>\<open>git\<close> can add the repositories of \<^verbatim>\<open>github.com/user\<close> and no
  other, and on which \<^verbatim>\<open>cmake\<close> fails.\<close>

definition git_only :: system where
  "git_only command fs =
     (if prefix ''git submodule add https://github.com/user/'' command then (0, fs) else (1, fs))"

text \<open>The same project checked out without its dependency directory, with the
  dependency \<^verbatim>\<open>B\<close> declared; and the example project seen from outside its root.\<close>

definition bare_files :: fsys where
  "bare_files =
     \<lparr>cwd = [''work''],
      nodes = [([''work''], Dir),
               ([''work'', ''.magnet''], Dir),
               ([''work'', ''app''], Dir),
               ([''work'', ''app'', ''Source''], Dir),
               ([''work'', ''app'', ''Source'', ''main.cpp''], File ''int main() {}'')],
      name_max = 255, path_max = 4096\<rparr>"

definition bare_world :: world where
  "bare_world =
     \<lparr>files = bare_files, dependencies = [''B''], dependenciesWritable = True,
      defaultConfiguration = Debug, console = []\<rparr>"

definition outside_world :: world where
  "outside_world =
     \<lparr>files = \<lparr>cwd = [], nodes = [([''work''], Dir)], name_max = 255, path_max = 4096\<rparr>,
      dependencies = [''B''],
      dependenciesWritable = True, defaultConfiguration = Debug, console = []\<rparr>"

section \<open>Properties\<close>
subsection \<open>Argument access\<close>

text \<open>
  C9. \<^verbatim>\<open>GetArgument\<close> is total: an index at or beyond the number of remaining arguments
  gives the empty string, and any smaller index gives the argument stored at that index,
  which is one of the arguments.
\<close>

theorem GetArgument_total:
  "(length (nextArguments props) \<le> unat index \<longrightarrow> GetArgument props index = '''') \<and>
   (unat index < length (nextArguments props) \<longrightarrow>
      GetArgument props index = nextArguments props ! unat index \<and>
      GetArgument props index \<in> set (nextArguments props))"
  by (simp add: GetArgument_def)

theorem GetArgument_total_witness:
  "GetArgument \<lparr>nextArguments = [''a'', ''b''], project = example_project\<rparr> 1 = ''b'' \<and>
   GetArgument \<lparr>nextArguments = [''a'', ''b''], project = example_project\<rparr> 2 = ''''"
  using GetArgument_total [of "\<lparr>nextArguments = [''a'', ''b''], project = example_project\<rparr>" 1]
        GetArgument_total [of "\<lparr>nextArguments = [''a'', ''b''], project = example_project\<rparr>" 2]
  by simp
subsection \<open>Finding the last occurrence of a character\<close>

lemma rfind_below_None:
  "n \<le> length s \<Longrightarrow> (rfind_below s c n = None) = (c \<notin> set (take n s))"
  by (induction n) (auto simp: take_Suc_conv_app_nth)

lemma rfind_below_Some:
  "n \<le> length s \<Longrightarrow> rfind_below s c n = Some i \<Longrightarrow>
     i < n \<and> s ! i = c \<and> c \<notin> set (drop (Suc i) (take n s))"
proof (induction n)
  case 0
  then show ?case by simp
next
  case (Suc n)
  show ?case
  proof (cases "s ! n = c")
    case True
    with Suc.prems show ?thesis by (auto simp: take_Suc_conv_app_nth)
  next
    case False
    with Suc show ?thesis by (auto simp: take_Suc_conv_app_nth)
  qed
qed

lemma find_last_of_None: "(find_last_of s c = None) = (c \<notin> set s)"
  by (simp add: find_last_of_def rfind_below_None)

lemma find_last_of_Some:
  assumes "find_last_of s c = Some i"
  shows "s = take i s @ c # drop (Suc i) s \<and> c \<notin> set (drop (Suc i) s) \<and> i < length s"
  using rfind_below_Some [of "length s" s c i] assms
  by (auto simp: find_last_of_def id_take_nth_drop)

lemma takeWhile_neq: "c \<notin> set xs \<Longrightarrow> takeWhile (\<lambda>x. x \<noteq> c) xs = xs"
  by (induction xs) auto

lemma dropWhile_neq: "c \<notin> set xs \<Longrightarrow> dropWhile (\<lambda>x. x \<noteq> c) (xs @ c # ys) = c # ys"
  by (induction xs) auto

lemma after_last_split: "c \<notin> set ys \<Longrightarrow> after_last c (xs @ c # ys) = ys"
  by (simp add: after_last_def takeWhile_tail takeWhile_neq)

lemma after_last_none: "c \<notin> set s \<Longrightarrow> after_last c s = s"
  by (simp add: after_last_def takeWhile_neq)

lemma cut_from_last_split: "c \<notin> set ys \<Longrightarrow> cut_from_last c (xs @ c # ys) = xs"
  by (simp add: cut_from_last_def dropWhile_neq)

lemma ExtractRepositoryName_eq: "ExtractRepositoryName url = repository_name url"
proof -
  define name where "name = after_last (CHR ''/'') url"
  have start: "drop (case find_last_of url (CHR ''/'') of None \<Rightarrow> 0 | Some i \<Rightarrow> i + 1) url = name"
  proof (cases "find_last_of url (CHR ''/'')")
    case None
    moreover from None have "CHR ''/'' \<notin> set url" by (simp add: find_last_of_None)
    ultimately show ?thesis
      by (simp add: name_def after_last_none)
  next
    case (Some i)
    from find_last_of_Some [OF Some]
    have "after_last (CHR ''/'') url = drop (Suc i) url"
      by (metis after_last_split)
    with Some show ?thesis by (simp add: name_def)
  qed
  have cut: "(case find_last_of name (CHR ''.'') of None \<Rightarrow> name | Some j \<Rightarrow> take j name) =
             cut_from_last (CHR ''.'') name"
  proof (cases "find_last_of name (CHR ''.'')")
    case None
    moreover from None have "CHR ''.'' \<notin> set name" by (simp add: find_last_of_None)
    ultimately show ?thesis by (simp add: cut_from_last_def)
  next
    case (Some j)
    from find_last_of_Some [OF Some]
    have "cut_from_last (CHR ''.'') name = take j name"
      by (metis cut_from_last_split)
    with Some show ?thesis by simp
  qed
  show ?thesis
    unfolding ExtractRepositoryName_def repository_name_def Let_def start
    using cut by (simp add: name_def)
qed

lemma repository_name_prepend:
  "repository_name (xs @ CHR ''/'' # arg) = repository_name arg"
proof -
  have "after_last (CHR ''/'') (xs @ CHR ''/'' # arg) = after_last (CHR ''/'') arg"
  proof (cases "CHR ''/'' \<in> set arg")
    case True
    then obtain ys zs where arg: "arg = ys @ CHR ''/'' # zs" and zs: "CHR ''/'' \<notin> set zs"
      by (metis split_list_last)
    have "after_last (CHR ''/'') ((xs @ CHR ''/'' # ys) @ CHR ''/'' # zs) = zs"
      using zs by (rule after_last_split)
    moreover have "after_last (CHR ''/'') (ys @ CHR ''/'' # zs) = zs"
      using zs by (rule after_last_split)
    ultimately show ?thesis by (simp add: arg)
  next
    case False
    then show ?thesis by (simp add: after_last_split after_last_none)
  qed
  then show ?thesis by (simp add: repository_name_def)
qed

lemma repository_name_complete_url: "repository_name (complete_url arg) = repository_name arg"
  using repository_name_prepend [of "''https://github.com''" arg]
  by (simp add: complete_url_def)
subsection \<open>What the handlers leave untouched\<close>

lemma extends_refl [simp]: "extends w w"
  by (simp add: extends_def)

lemma extends_trans: "extends a b \<Longrightarrow> extends b c \<Longrightarrow> extends a c"
  by (auto simp: extends_def intro: prefix_order.trans)

lemma extends_files [simp]: "extends w (w'\<lparr>files := fs\<rparr>) = extends w w'"
  by (simp add: extends_def)

lemma extends_MG_LOG: "extends w w' \<Longrightarrow> extends w (MG_LOG m w')"
  by (auto simp: extends_def MG_LOG_def prefix_def)

lemma extends_MG_LOGNH: "extends w w' \<Longrightarrow> extends w (MG_LOGNH m w')"
  by (auto simp: extends_def MG_LOGNH_def prefix_def)

lemma extends_fold_MG_LOG: "extends w w' \<Longrightarrow> extends w (fold (\<lambda>x. MG_LOG (f x)) xs w')"
  by (induction xs arbitrary: w') (auto intro: extends_MG_LOG)

lemma extends_fold_MG_LOGNH: "extends w w' \<Longrightarrow> extends w (fold MG_LOGNH xs w')"
  by (induction xs arbitrary: w') (auto intro: extends_MG_LOGNH)

lemma extends_RequireProjectName:
  "extends w w' \<Longrightarrow> extends w (snd (RequireProjectName props w'))"
  by (simp add: RequireProjectName_def extends_MG_LOG)

lemma extends_ExecuteCommand:
  "extends w w' \<Longrightarrow> extends w (snd (ExecuteCommand sys command msg w'))"
  by (simp add: ExecuteCommand_def Let_def extends_MG_LOG split: prod.splits)

lemma extends_GenerateRootCMakeFile:
  "extends w w' \<Longrightarrow> extends w (snd (GenerateRootCMakeFile core props w'))"
  by (auto simp: GenerateRootCMakeFile_def Let_def RequireProjectName_def intro: extends_MG_LOG)

lemma extends_GenerateDependencyCMakeFiles:
  "extends w w' \<Longrightarrow>
   extends w (case GenerateDependencyCMakeFiles core props w' of
                Inl (e, v) \<Rightarrow> v | Inr (r, v) \<Rightarrow> v)"
  by (auto simp: GenerateDependencyCMakeFiles_def Let_def RequireProjectName_def
        intro: extends_MG_LOG split: sum.splits prod.splits)

lemma extends_GenerateCMakeFiles:
  "extends w w' \<Longrightarrow>
   extends w (case GenerateCMakeFiles core props w' of Inl (e, v) \<Rightarrow> v | Inr (r, v) \<Rightarrow> v)"
  by (auto simp: GenerateCMakeFiles_def Let_def RequireProjectName_def
        intro: extends_MG_LOG split: option.splits)

lemma extends_generate_files:
  assumes "extends w w'"
  shows "extends w (final_world (generate_files core props w'))"
proof -
  let ?w1 = "snd (GenerateRootCMakeFile core props w')"
  have 1: "extends w ?w1" using assms by (rule extends_GenerateRootCMakeFile)
  have 2: "extends w (case GenerateCMakeFiles core props ?w1 of Inl (e, v) \<Rightarrow> v | Inr (r, v) \<Rightarrow> v)"
    using 1 by (rule extends_GenerateCMakeFiles)
  show ?thesis
  proof (cases "GenerateCMakeFiles core props ?w1")
    case (Inl a)
    with 2 show ?thesis
      by (simp add: generate_files_def final_world_def Let_def split: prod.splits)
  next
    case (Inr b)
    obtain r v where b: "b = (r, v)" by (cases b)
    with 2 Inr have "extends w v" by simp
    then have "extends w (case GenerateDependencyCMakeFiles core props v of
                            Inl (e, v) \<Rightarrow> v | Inr (r, v) \<Rightarrow> v)"
      by (rule extends_GenerateDependencyCMakeFiles)
    with Inr b show ?thesis
      by (simp add: generate_files_def final_world_def Let_def split: sum.splits prod.splits)
  qed
qed

lemma extends_check_dependencies:
  "extends w w' \<Longrightarrow>
   extends w (case check_dependencies path deps has w' of
                Inl (e, v) \<Rightarrow> v | Inr (r, v) \<Rightarrow> v)"
proof (induction deps arbitrary: has w')
  case Nil
  then show ?case by simp
next
  case (Cons d deps)
  show ?case
  proof (cases "fs_exists (files w') (path_append path d)")
    case (Inl e)
    with Cons.prems show ?thesis by simp
  next
    case (Inr found)
    show ?thesis
    proof (cases found)
      case True
      with Inr Cons.IH [OF Cons.prems, of has] show ?thesis by simp
    next
      case False
      have "extends w (MG_LOG (''Missing dependency: '' @ path_append path d) w')"
        using Cons.prems by (rule extends_MG_LOG)
      from Cons.IH [OF this, of True] Inr False show ?thesis by simp
    qed
  qed
qed

lemma extends_missing_dependencies:
  "extends w w' \<Longrightarrow>
   extends w (case missing_dependencies name w' of Inl (e, v) \<Rightarrow> v | Inr (r, v) \<Rightarrow> v)"
  using extends_check_dependencies [of w w' "name @ ''/Dependencies''" "GetDependencies w'" False]
  by (auto simp: missing_dependencies_def Let_def split: sum.splits)

lemma extends_run_generation:
  assumes "extends w w'"
  shows "extends w (final_world (run_generation core sys props w'))"
proof -
  have g: "extends w (final_world (generate_files core props w'))"
    using assms by (rule extends_generate_files)
  show ?thesis
  proof (cases "generate_files core props w'")
    case (Inl ev)
    with g show ?thesis by (simp add: run_generation_def)
  next
    case (Inr v)
    with g have v: "extends w v" by (simp add: final_world_def)
    let ?cmd = "''cmake -S . -B '' @ GetName (project props) @ ''/Build '' @
                generator_option (platform core)"
    let ?msg = "''CMake failed to generate project files. See messages above for more information.''"
    obtain ran w4 where x: "ExecuteCommand sys ?cmd ?msg v = (ran, w4)"
      by (cases "ExecuteCommand sys ?cmd ?msg v")
    have w4: "extends w w4" using extends_ExecuteCommand [OF v, of sys ?cmd ?msg] x by simp
    from w4 Inr x show ?thesis
      by (auto simp: run_generation_def Let_def final_world_def intro!: extends_MG_LOG)
  qed
qed

lemma extends_HandleGenerateCommand_from:
  assumes "extends w (MG_LOG ''Generating project files...'' w')"
  shows "extends w (final_world (HandleGenerateCommand core sys props w'))"
proof -
  let ?a = "MG_LOG ''Generating project files...'' w'"
  have a: "extends w ?a" using assms .
  let ?m = "missing_dependencies (GetName (project props)) ?a"
  have m: "extends w (case ?m of Inl (e, v) \<Rightarrow> v | Inr (r, v) \<Rightarrow> v)"
    using a by (rule extends_missing_dependencies)
  show ?thesis
  proof (cases "IsRootLevel ?a \<and> GetName (project props) \<noteq> []")
    case False
    with a show ?thesis
      by (auto simp: HandleGenerateCommand_def Let_def final_world_def RequireProjectName_def
            intro!: extends_MG_LOG)
  next
    case True
    then have run: "HandleGenerateCommand core sys props w' =
        (case ?m of
           Inl e \<Rightarrow> Inl e
         | Inr (hasMissingDependencies, w2) \<Rightarrow>
             if hasMissingDependencies then
               Inr (MG_LOG (''Generate failed due to missing dependencies. Run '' @
                            [CHR 0x60] @ ''magnet pull'' @ [CHR 0x60] @
                            '' to install them.'') w2)
             else run_generation core sys props w2)"
      by (simp add: HandleGenerateCommand_def Let_def RequireProjectName_def)
    show ?thesis
    proof (cases ?m)
      case (Inl ev)
      with m run show ?thesis by (simp add: final_world_def)
    next
      case (Inr rv)
      obtain r v where rv: "rv = (r, v)" by (cases rv)
      with m Inr have v: "extends w v" by simp
      show ?thesis
      proof (cases r)
        case True
        with run Inr rv v show ?thesis
          by (simp add: final_world_def extends_MG_LOG)
      next
        case False
        with run Inr rv extends_run_generation [OF v, of core sys props] show ?thesis
          by simp
      qed
    qed
  qed
qed

lemma extends_HandleGenerateCommand:
  assumes "extends w w'"
  shows "extends w (final_world (HandleGenerateCommand core sys props w'))"
  using assms by (intro extends_HandleGenerateCommand_from extends_MG_LOG)

text \<open>Generation, once invoked, first announces itself on the console.\<close>

lemma HandleGenerateCommand_announces:
  "prefix (console w @ [LOG ''Generating project files...''])
     (console (final_world (HandleGenerateCommand core sys props w)))"
proof -
  have "extends (MG_LOG ''Generating project files...'' w)
          (final_world (HandleGenerateCommand core sys props w))"
    by (rule extends_HandleGenerateCommand_from) simp
  then show ?thesis by (simp add: extends_def MG_LOG_def)
qed


lemma extends_dependencies: "extends w w' \<Longrightarrow> dependencies w' = dependencies w"
  by (simp add: extends_def)

lemma extends_writable: "extends w w' \<Longrightarrow> dependenciesWritable w' = dependenciesWritable w"
  by (simp add: extends_def)

lemma ExecuteCommand_fail:
  "fst (sys command (files w)) \<noteq> 0 \<Longrightarrow>
   ExecuteCommand sys command msg w =
     (False, MG_LOG msg (w\<lparr>files := snd (sys command (files w))\<rparr>))"
  by (cases "sys command (files w)") (simp add: ExecuteCommand_def)

lemma ExecuteCommand_ok:
  "fst (sys command (files w)) = 0 \<Longrightarrow>
   ExecuteCommand sys command msg w = (True, w\<lparr>files := snd (sys command (files w))\<rparr>)"
  by (cases "sys command (files w)") (simp add: ExecuteCommand_def)

lemma HandlePullCommand_install:
  assumes arg: "GetArgument props 0 = arg" "arg \<noteq> []" "arg \<noteq> ''--list''" "arg \<noteq> ''--help''"
    and named: "GetName (project props) \<noteq> []"
    and ok: "fst (sys (''git submodule add '' @ complete_url arg @ '' '' @
                       GetName (project props) @ ''/Dependencies/'' @
                       ExtractRepositoryName (complete_url arg)) (files w)) = 0"
    and writable: "dependenciesWritable w"
  shows "dependencies (final_world (HandlePullCommand core sys props w)) =
           dependencies w @ [ExtractRepositoryName (complete_url arg)] \<and>
         dependenciesWritable (final_world (HandlePullCommand core sys props w))"
proof -
  let ?name = "ExtractRepositoryName (complete_url arg)"
  let ?cmd = "''git submodule add '' @ complete_url arg @ '' '' @
              GetName (project props) @ ''/Dependencies/'' @ ?name"
  let ?w2 = "w\<lparr>files := snd (sys ?cmd (files w))\<rparr>"
  let ?w3 = "MG_LOG (''Installed new dependency: '' @ ?name)
              (?w2\<lparr>dependencies := dependencies w @ [?name]\<rparr>)"
  have run: "HandlePullCommand core sys props w = HandleGenerateCommand core sys props ?w3"
    using arg named ok writable
    by (simp add: HandlePullCommand_def Let_def RequireProjectName_def ExecuteCommand_ok
          WriteDependencyFile_def GetDependencies_def)
  have "extends ?w3 (final_world (HandleGenerateCommand core sys props ?w3))"
    by (rule extends_HandleGenerateCommand) simp
  then show ?thesis
    using writable by (simp add: run extends_def MG_LOG_def)
qed

text \<open>
  C10. The name that \<^verbatim>\<open>magnet pull <url>\<close> records in the dependency document is the
  part of the URL after its last slash, cut before the last period of that part (the
  whole part when it has no period).
\<close>

theorem pull_records_repository_name:
  assumes "GetArgument props 0 = arg" "arg \<noteq> []" "arg \<noteq> ''--list''" "arg \<noteq> ''--help''"
    and "GetName (project props) \<noteq> []"
    and "fst (sys (''git submodule add '' @ complete_url arg @ '' '' @
                   GetName (project props) @ ''/Dependencies/'' @ repository_name arg)
              (files w)) = 0"
    and "dependenciesWritable w"
  shows "ExtractRepositoryName (complete_url arg) = repository_name arg \<and>
         dependencies (final_world (HandlePullCommand core sys props w)) =
           dependencies w @ [repository_name arg]"
proof -
  have name: "ExtractRepositoryName (complete_url arg) = repository_name arg"
    by (simp add: ExtractRepositoryName_eq repository_name_complete_url)
  with HandlePullCommand_install [of props arg sys w core] assms show ?thesis
    by simp
qed

theorem pull_records_repository_name_witness:
  "dependencies
     (final_world
        (HandlePullCommand example_core succeeding
           \<lparr>nextArguments = [''user/my.lib''], project = example_project\<rparr> example_world)) =
   [''A'', ''my'']"
  using pull_records_repository_name
          [of "\<lparr>nextArguments = [''user/my.lib''], project = example_project\<rparr>"
              "''user/my.lib''" succeeding example_world example_core]
  by (simp add: GetArgument_def example_project_def succeeding_def example_world_def
        repository_name_def after_last_def cut_from_last_def)
subsection \<open>The dependency document under installs\<close>

lemma extends_HandlePullListCommand: "extends w (HandlePullListCommand props w)"
  by (simp add: HandlePullListCommand_def Let_def extends_MG_LOG extends_fold_MG_LOGNH)

lemma install_appends:
  assumes "install_succeeds sys proj u w"
  shows "dependencies (install core sys proj u w) =
           dependencies w @ [ExtractRepositoryName (complete_url u)] \<and>
         dependenciesWritable (install core sys proj u w)"
  unfolding install_def
  using assms
  by (intro HandlePullCommand_install [where arg = u])
     (simp_all add: GetArgument_def install_succeeds_def)

lemma install_otherwise:
  assumes "\<not> install_succeeds sys proj u w"
  shows "extends w (install core sys proj u w)"
proof -
  let ?props = "\<lparr>nextArguments = [u], project = proj\<rparr>"
  have arg: "GetArgument ?props 0 = u" by (simp add: GetArgument_def)
  show ?thesis
  proof (cases "u = []")
    case True
    let ?cmd = "''git submodule update --init --recursive''"
    let ?msg = "''Failed to install dependencies. See messages above for more information.''"
    obtain ok w1 where x: "ExecuteCommand sys ?cmd ?msg w = (ok, w1)"
      by (cases "ExecuteCommand sys ?cmd ?msg w")
    have w1: "extends w w1" using extends_ExecuteCommand [of w w sys ?cmd ?msg] x by simp
    have "extends w (final_world (HandleGenerateCommand core sys ?props
                       (MG_LOG ''Successfully installed all dependencies.'' w1)))"
      using w1 by (intro extends_HandleGenerateCommand extends_MG_LOG)
    with w1 x True arg show ?thesis
      by (simp add: install_def HandlePullCommand_def Let_def final_world_def)
  next
    case False
    note nonempty = this
    show ?thesis
    proof (cases "GetName proj = []")
      case True
      with nonempty arg show ?thesis
        by (simp add: install_def HandlePullCommand_def Let_def final_world_def
              RequireProjectName_def extends_MG_LOG)
    next
      case False
      note named = this
      show ?thesis
      proof (cases "u = ''--list'' \<or> u = ''--help''")
        case True
        with nonempty named arg show ?thesis
          by (auto simp: install_def HandlePullCommand_def Let_def final_world_def
                RequireProjectName_def extends_HandlePullListCommand
                intro!: extends_MG_LOGNH)
      next
        case False
        let ?name = "ExtractRepositoryName (complete_url u)"
        let ?cmd = "''git submodule add '' @ complete_url u @ '' '' @ GetName proj @
                    ''/Dependencies/'' @ ?name"
        let ?msg = "''Failed to install dependency. See messages above for more information.''"
        let ?w2 = "w\<lparr>files := snd (sys ?cmd (files w))\<rparr>"
        show ?thesis
        proof (cases "fst (sys ?cmd (files w)) = 0")
          case True
          with assms nonempty named False have nw: "\<not> dependenciesWritable w"
            by (simp add: install_succeeds_def)
          let ?w3 = "MG_LOG (''Installed new dependency: '' @ ?name)
                       (MG_LOG ''Failed to update dependencies.yaml file.'' ?w2)"
          have run: "HandlePullCommand core sys ?props w = HandleGenerateCommand core sys ?props ?w3"
            using nonempty named False True nw arg
            by (simp add: HandlePullCommand_def Let_def RequireProjectName_def ExecuteCommand_ok
                  WriteDependencyFile_def)
          have "extends w ?w3" by (intro extends_MG_LOG) simp
          then have "extends w (final_world (HandleGenerateCommand core sys ?props ?w3))"
            by (rule extends_HandleGenerateCommand)
          then show ?thesis by (simp add: install_def run)
        next
          case failed: False
          have "HandlePullCommand core sys ?props w = Inr (MG_LOG ?msg ?w2)"
            using nonempty named False failed arg
            by (simp add: HandlePullCommand_def Let_def RequireProjectName_def
                  ExecuteCommand_fail)
          then show ?thesis
            by (simp add: install_def final_world_def extends_MG_LOG)
        qed
      qed
    qed
  qed
qed

lemma install_registry:
  "dependencies (install core sys proj u w) =
     dependencies w @
     (if install_succeeds sys proj u w then [ExtractRepositoryName (complete_url u)] else [])"
  using install_appends [of sys proj u w core] install_otherwise [of sys proj u w core]
  by (simp add: extends_def)

lemma install_writable:
  "dependenciesWritable (install core sys proj u w) = dependenciesWritable w"
  using install_appends [of sys proj u w core] install_otherwise [of sys proj u w core]
  by (cases "install_succeeds sys proj u w") (simp_all add: extends_def install_succeeds_def)

text \<open>
  C3, as the code has it. The dependency document is an ordered list. A run of
  \<^verbatim>\<open>magnet pull <url>\<close> that succeeds (its argument names a repository, the project has a
  name, \<^verbatim>\<open>git submodule add\<close> exits with status zero and the document can be written)
  appends the extracted name at the end; every other run leaves the document as it was,
  whatever the external programs do. So after any sequence of runs the document is the
  one before, followed by the names of the runs that succeeded, in their order. Nothing
  checks whether a name is already listed.
\<close>

theorem installs_append_in_order:
  "dependencies (fold (install core sys proj) urls w) =
     dependencies w @ recorded core sys proj urls w \<and>
   dependencies (install core sys proj url w) =
     dependencies w @
     (if install_succeeds sys proj url w then [ExtractRepositoryName (complete_url url)]
      else [])"
proof -
  have "dependencies (fold (install core sys proj) urls w) =
          dependencies w @ recorded core sys proj urls w"
  proof (induction urls arbitrary: w)
    case Nil
    then show ?case by simp
  next
    case (Cons u urls)
    show ?case by (simp add: Cons.IH install_registry)
  qed
  then show ?thesis by (simp add: install_registry)
qed

lemma example_names:
  "ExtractRepositoryName (complete_url ''user/B.git'') = ''B''"
  "ExtractRepositoryName (complete_url ''other/X'') = ''X''"
  "ExtractRepositoryName (complete_url ''user/A'') = ''A''"
  by code_simp+

lemma example_urls:
  "complete_url ''user/B.git'' = ''https://github.com/user/B.git''"
  "complete_url ''other/X'' = ''https://github.com/other/X''"
  "complete_url ''user/A'' = ''https://github.com/user/A''"
  by (simp_all add: complete_url_def)

text \<open>Three runs on a machine where the second cannot be fetched and \<^verbatim>\<open>cmake\<close> fails
  every time: the first and the third are recorded, in this order.\<close>

theorem installs_append_in_order_witness:
  "recorded example_core git_only example_project [''user/B.git'', ''other/X'', ''user/A'']
     example_world = [''B'', ''A''] \<and>
   dependencies
     (fold (install example_core git_only example_project)
        [''user/B.git'', ''other/X'', ''user/A''] example_world) = [''A'', ''B'', ''A''] \<and>
   install_succeeds git_only example_project ''user/B.git'' example_world \<and>
   dependencies (install example_core git_only example_project ''user/B.git'' example_world) =
     [''A'', ''B'']"
proof -
  have w: "dependenciesWritable example_world" "dependencies example_world = [''A'']"
    by (simp_all add: example_world_def)
  have name: "GetName example_project = ''app''" by (simp add: example_project_def)
  have s: "install_succeeds git_only example_project ''user/B.git'' v = dependenciesWritable v"
    "install_succeeds git_only example_project ''other/X'' v = False"
    "install_succeeds git_only example_project ''user/A'' v = dependenciesWritable v" for v
    by (simp_all add: install_succeeds_def example_urls example_names name git_only_def)
  from installs_append_in_order
         [of example_core git_only example_project "[''user/B.git'', ''other/X'', ''user/A'']"
             example_world "''user/B.git''"]
  show ?thesis by (simp add: s w install_writable example_names)
qed

text \<open>With the dependency \<^verbatim>\<open>A\<close> already listed, a successful \<^verbatim>\<open>magnet pull user/A\<close>
  lists it a second time.\<close>

theorem install_duplicate_counterexample:
  "distinct (dependencies example_world) \<and>
   \<not> distinct (dependencies (install example_core succeeding example_project ''user/A'' example_world))"
proof -
  have "install_succeeds succeeding example_project ''user/A'' example_world"
    by (simp add: install_succeeds_def example_project_def succeeding_def example_world_def)
  then have "dependencies (install example_core succeeding example_project ''user/A'' example_world) =
          dependencies example_world @ [ExtractRepositoryName (complete_url ''user/A'')]"
    using install_appends [of succeeding example_project "''user/A''" example_world example_core]
    by simp
  then show ?thesis by (simp add: example_world_def example_names)
qed
subsection \<open>External steps that fail\<close>

lemma stops_with_Inr:
  "stops_with w message (Inr (MG_LOG message (w\<lparr>files := fs\<rparr>)))"
  by (simp add: stops_with_def MG_LOG_def)

lemma install_all_fails:
  assumes "GetArgument props 0 = []"
    and "fst (sys ''git submodule update --init --recursive'' (files w)) \<noteq> 0"
  shows "stops_with w ''Failed to install dependencies. See messages above for more information.''
           (HandlePullCommand core sys props w)"
  using assms
  by (simp add: HandlePullCommand_def Let_def ExecuteCommand_fail stops_with_Inr)

lemma install_one_fails:
  assumes "GetArgument props 0 \<notin> {[], ''--list'', ''--help''}"
    and "GetName (project props) \<noteq> []"
    and "fst (sys (''git submodule add '' @ complete_url (GetArgument props 0) @ '' '' @
                   GetName (project props) @ ''/Dependencies/'' @
                   ExtractRepositoryName (complete_url (GetArgument props 0))) (files w)) \<noteq> 0"
  shows "stops_with w ''Failed to install dependency. See messages above for more information.''
           (HandlePullCommand core sys props w)"
  using assms
  by (simp add: HandlePullCommand_def Let_def RequireProjectName_def ExecuteCommand_fail
        stops_with_Inr)

lemma remove_fails:
  assumes "GetArgument props 0 \<noteq> []"
    and "GetName (project props) \<noteq> []"
    and "let installPath = GetName (project props) @ ''/Dependencies/'' @ GetArgument props 0;
             (s1, fs1) = sys (''git submodule deinit -f '' @ installPath) (files w);
             (s2, fs2) = sys (''git rm -f '' @ installPath) fs1;
             (s3, fs3) = sys (''rm -rf .git/modules/'' @ installPath) fs2
         in s1 \<noteq> 0 \<or> s2 \<noteq> 0 \<or> s3 \<noteq> 0"
  shows "stops_with w ''Failed to remove dependency. See messages above for more information.''
           (HandleRemoveCommand core sys props w)"
proof -
  let ?p = "GetName (project props) @ ''/Dependencies/'' @ GetArgument props 0"
  let ?msg = "''Failed to remove dependency. See messages above for more information.''"
  obtain s1 fs1 where 1: "sys (''git submodule deinit -f '' @ ?p) (files w) = (s1, fs1)"
    by (cases "sys (''git submodule deinit -f '' @ ?p) (files w)")
  obtain s2 fs2 where 2: "sys (''git rm -f '' @ ?p) fs1 = (s2, fs2)"
    by (cases "sys (''git rm -f '' @ ?p) fs1")
  obtain s3 fs3 where 3: "sys (''rm -rf .git/modules/'' @ ?p) fs2 = (s3, fs3)"
    by (cases "sys (''rm -rf .git/modules/'' @ ?p) fs2")
  from assms(3) 1 2 3 have some: "s1 \<noteq> 0 \<or> s2 \<noteq> 0 \<or> s3 \<noteq> 0"
    by (simp add: Let_def)
  have e1: "ExecuteCommand sys (''git submodule deinit -f '' @ ?p) ?msg w =
              (s1 = 0, if s1 = 0 then w\<lparr>files := fs1\<rparr> else MG_LOG ?msg (w\<lparr>files := fs1\<rparr>))"
    using 1 by (simp add: ExecuteCommand_def)
  have e2: "ExecuteCommand sys (''git rm -f '' @ ?p) ?msg (w\<lparr>files := fs1\<rparr>) =
              (s2 = 0, if s2 = 0 then w\<lparr>files := fs2\<rparr> else MG_LOG ?msg (w\<lparr>files := fs2\<rparr>))"
    using 2 by (simp add: ExecuteCommand_def)
  have e3: "ExecuteCommand sys (''rm -rf .git/modules/'' @ ?p) ?msg (w\<lparr>files := fs2\<rparr>) =
              (s3 = 0, if s3 = 0 then w\<lparr>files := fs3\<rparr> else MG_LOG ?msg (w\<lparr>files := fs3\<rparr>))"
    using 3 by (simp add: ExecuteCommand_def)
  have "HandleRemoveCommand core sys props w =
          (if s1 \<noteq> 0 then Inr (MG_LOG ?msg (w\<lparr>files := fs1\<rparr>))
           else if s2 \<noteq> 0 then Inr (MG_LOG ?msg (w\<lparr>files := fs2\<rparr>))
           else Inr (MG_LOG ?msg (w\<lparr>files := fs3\<rparr>)))"
    using assms(1,2) some e1 e2 e3
    unfolding HandleRemoveCommand_def Let_def RequireProjectName_def
    by (auto simp del: append.simps)
  then show ?thesis by (simp add: stops_with_Inr)
qed

lemma switch_fails:
  assumes "GetArgument props 0 \<noteq> []" "GetArgument props 1 \<noteq> []"
    and "GetName (project props) \<noteq> []"
    and "let installPath =
               path_append (path_append (GetName (project props)) ''Dependencies'')
                 (GetArgument props 0);
             (s1, fs1) =
               sys (''git -C '' @ installPath @ '' checkout '' @ GetArgument props 1) (files w);
             (s2, fs2) = sys (''git add '' @ installPath) fs1
         in s1 \<noteq> 0 \<or> s2 \<noteq> 0"
  shows "stops_with w ''Failed to switch dependency branch. See messages above for more information.''
           (HandleSwitchCommand core sys props w)"
proof -
  let ?p = "path_append (path_append (GetName (project props)) ''Dependencies'')
              (GetArgument props 0)"
  let ?c1 = "''git -C '' @ ?p @ '' checkout '' @ GetArgument props 1"
  let ?msg = "''Failed to switch dependency branch. See messages above for more information.''"
  obtain s1 fs1 where 1: "sys ?c1 (files w) = (s1, fs1)"
    by (cases "sys ?c1 (files w)")
  obtain s2 fs2 where 2: "sys (''git add '' @ ?p) fs1 = (s2, fs2)"
    by (cases "sys (''git add '' @ ?p) fs1")
  from assms(4) 1 2 have some: "s1 \<noteq> 0 \<or> s2 \<noteq> 0"
    by (simp add: Let_def)
  have e1: "ExecuteCommand sys ?c1 ?msg w =
              (s1 = 0, if s1 = 0 then w\<lparr>files := fs1\<rparr> else MG_LOG ?msg (w\<lparr>files := fs1\<rparr>))"
    using 1 by (simp add: ExecuteCommand_def)
  have e2: "ExecuteCommand sys (''git add '' @ ?p) ?msg (w\<lparr>files := fs1\<rparr>) =
              (s2 = 0, if s2 = 0 then w\<lparr>files := fs2\<rparr> else MG_LOG ?msg (w\<lparr>files := fs2\<rparr>))"
    using 2 by (simp add: ExecuteCommand_def)
  have "HandleSwitchCommand core sys props w =
          (if s1 \<noteq> 0 then Inr (MG_LOG ?msg (w\<lparr>files := fs1\<rparr>))
           else Inr (MG_LOG ?msg (w\<lparr>files := fs2\<rparr>)))"
    using assms(1,2,3) some e1 e2
    unfolding HandleSwitchCommand_def Let_def RequireProjectName_def
    by (auto simp del: append.simps)
  then show ?thesis by (simp add: stops_with_Inr)
qed

text \<open>
  C2. In each dependency-mutating command (install all, install one, remove, switch), when
  an external version-control step exits with a non-zero status the handler returns at
  once: the dependency document is what it was before the call, and the only line added
  to the console is the failure message, so generation, which would announce itself, has
  not been invoked.
\<close>

theorem failed_step_short_circuits:
  "(GetArgument props 0 = [] \<and>
    fst (sys ''git submodule update --init --recursive'' (files w)) \<noteq> 0 \<longrightarrow>
      stops_with w ''Failed to install dependencies. See messages above for more information.''
        (HandlePullCommand core sys props w)) \<and>
   (GetArgument props 0 \<notin> {[], ''--list'', ''--help''} \<and> GetName (project props) \<noteq> [] \<and>
    fst (sys (''git submodule add '' @ complete_url (GetArgument props 0) @ '' '' @
              GetName (project props) @ ''/Dependencies/'' @
              ExtractRepositoryName (complete_url (GetArgument props 0))) (files w)) \<noteq> 0 \<longrightarrow>
      stops_with w ''Failed to install dependency. See messages above for more information.''
        (HandlePullCommand core sys props w)) \<and>
   (GetArgument props 0 \<noteq> [] \<and> GetName (project props) \<noteq> [] \<and>
    (let installPath = GetName (project props) @ ''/Dependencies/'' @ GetArgument props 0;
         (s1, fs1) = sys (''git submodule deinit -f '' @ installPath) (files w);
         (s2, fs2) = sys (''git rm -f '' @ installPath) fs1;
         (s3, fs3) = sys (''rm -rf .git/modules/'' @ installPath) fs2
     in s1 \<noteq> 0 \<or> s2 \<noteq> 0 \<or> s3 \<noteq> 0) \<longrightarrow>
      stops_with w ''Failed to remove dependency. See messages above for more information.''
        (HandleRemoveCommand core sys props w)) \<and>
   (GetArgument props 0 \<noteq> [] \<and> GetArgument props 1 \<noteq> [] \<and> GetName (project props) \<noteq> [] \<and>
    (let installPath =
           path_append (path_append (GetName (project props)) ''Dependencies'')
             (GetArgument props 0);
         (s1, fs1) =
           sys (''git -C '' @ installPath @ '' checkout '' @ GetArgument props 1) (files w);
         (s2, fs2) = sys (''git add '' @ installPath) fs1
     in s1 \<noteq> 0 \<or> s2 \<noteq> 0) \<longrightarrow>
      stops_with w ''Failed to switch dependency branch. See messages above for more information.''
        (HandleSwitchCommand core sys props w))"
  using install_all_fails [of props sys w core] install_one_fails [of props sys w core]
    remove_fails [of props sys w core] switch_fails [of props sys w core]
  by blast

theorem failed_step_short_circuits_witness:
  "stops_with example_world ''Failed to install dependencies. See messages above for more information.''
     (HandlePullCommand example_core failing \<lparr>nextArguments = [], project = example_project\<rparr>
        example_world) \<and>
   stops_with example_world ''Failed to install dependency. See messages above for more information.''
     (HandlePullCommand example_core failing
        \<lparr>nextArguments = [''user/B''], project = example_project\<rparr> example_world) \<and>
   stops_with example_world ''Failed to remove dependency. See messages above for more information.''
     (HandleRemoveCommand example_core failing
        \<lparr>nextArguments = [''A''], project = example_project\<rparr> example_world) \<and>
   stops_with example_world ''Failed to switch dependency branch. See messages above for more information.''
     (HandleSwitchCommand example_core failing
        \<lparr>nextArguments = [''A'', ''dev''], project = example_project\<rparr> example_world)"
  using failed_step_short_circuits
          [of "\<lparr>nextArguments = [], project = example_project\<rparr>" failing example_world
              example_core]
        failed_step_short_circuits
          [of "\<lparr>nextArguments = [''user/B''], project = example_project\<rparr>" failing
              example_world example_core]
        failed_step_short_circuits
          [of "\<lparr>nextArguments = [''A''], project = example_project\<rparr>" failing
              example_world example_core]
        failed_step_short_circuits
          [of "\<lparr>nextArguments = [''A'', ''dev''], project = example_project\<rparr>" failing
              example_world example_core]
  by (simp add: GetArgument_def failing_def example_project_def)
subsection \<open>The configuration command\<close>

lemma HandleConfigCommand_empty:
  "GetArgument props 0 = [] \<Longrightarrow>
   HandleConfigCommand props w = MG_LOG ''Usage: magnet config <configuration>'' w"
  by (simp add: HandleConfigCommand_def)

lemma HandleConfigCommand_invalid:
  "GetArgument props 0 \<noteq> [] \<Longrightarrow> \<not> IsValid (FromString (GetArgument props 0)) \<Longrightarrow>
   HandleConfigCommand props w =
     MG_LOG ''Usage: magnet config [Debug/Release]'' (w\<lparr>defaultConfiguration := Invalid\<rparr>)"
  by (simp add: HandleConfigCommand_def Let_def SetDefaultConfiguration_def IsValid_def)

text \<open>
  C4, at the input \<^verbatim>\<open>magnet config debug\<close> with the stored default \<^verbatim>\<open>Debug\<close>: the text is
  not a valid configuration, the usage message is logged, and the stored default has
  been replaced by the \<^verbatim>\<open>Invalid\<close> sentinel, because the handler sets the default
  before it checks validity.
\<close>

theorem config_invalid_overwrites_default:
  "\<not> IsValid (FromString ''debug'') \<and>
   defaultConfiguration example_world = Debug \<and>
   defaultConfiguration
     (HandleConfigCommand \<lparr>nextArguments = [''debug''], project = example_project\<rparr>
        example_world) = Invalid \<and>
   console
     (HandleConfigCommand \<lparr>nextArguments = [''debug''], project = example_project\<rparr>
        example_world) = [LOG ''Usage: magnet config [Debug/Release]'']"
  by (simp add: HandleConfigCommand_def Let_def SetDefaultConfiguration_def IsValid_def
        FromString_def GetArgument_def example_world_def MG_LOG_def)
subsection \<open>Conditional blocks of the emitter\<close>

lemma emits_Add_Literal: "emits (Add_Literal literal) literal"
  by (simp add: emits_def Add_Literal_def)

lemma emits_Add_Indentation: "emits (Add_Indentation amount) (replicate (nat amount) (CHR 0x09))"
  by (simp add: emits_def Add_Indentation_def)

lemma emits_Add_Newline: "emits (Add_Newline amount) (replicate (nat amount) End)"
  by (simp add: emits_def Add_Newline_def)

lemma emits_Add_Comment: "emits (Add_Comment comment) (''# '' @ comment @ [End])"
  by (simp add: emits_def Add_Comment_def)

lemma emits_Add_SetTargetProperties:
  "emits (Add_SetTargetProperties target property val)
     (''set_target_properties('' @ target @ '' PROPERTIES '' @ property @ '' '' @ val @ '')'' @
      [End])"
  by (simp add: emits_def Add_SetTargetProperties_def)

lemma run_block_emits:
  "list_all2 emits calls texts \<Longrightarrow> run_block calls s = s @ concat texts"
proof (induction calls texts arbitrary: s rule: list_all2_induct)
  case Nil
  then show ?case by (simp add: run_block_def)
next
  case (Cons call calls t texts)
  from Cons.hyps(1) have "call s = s @ t" by (simp add: emits_def)
  moreover have "run_block calls (s @ t) = (s @ t) @ concat texts" by (rule Cons.IH)
  ultimately show ?case by (simp add: run_block_def)
qed

lemma emits_run_block: "list_all2 emits calls texts \<Longrightarrow> emits (run_block calls) (concat texts)"
  by (simp add: emits_def run_block_emits)

lemma emits_Add_If:
  "emits lambda t \<Longrightarrow>
   emits (Add_If condition lambda) (''if('' @ condition @ '')'' @ [End] @ t @ ''endif()'' @ [End])"
  by (simp add: emits_def Add_If_def)

lemma emits_Add_IfElse:
  "emits ifTrue t \<Longrightarrow> emits ifFalse f \<Longrightarrow>
   emits (Add_IfElse condition ifTrue ifFalse)
     (''if('' @ condition @ '')'' @ [End] @ t @ ''else()'' @ [End] @ f @ ''endif()'' @ [End])"
  by (simp add: emits_def Add_IfElse_def)

text \<open>
  C5. For every condition and all deferred blocks \<open>X\<close> and \<open>Y\<close>, each a sequence of any
  number of emitter calls, \<^verbatim>\<open>Add_IfElse\<close> leaves what was written before in place and
  writes after it: the if-line, the texts of the calls of \<open>X\<close> once each in call order, the
  else-line, the texts of the calls of \<open>Y\<close> once each in call order, and the endif-line.
\<close>

theorem Add_IfElse_nesting:
  assumes "list_all2 emits X xs" and "list_all2 emits Y ys"
  shows "Add_IfElse condition (run_block X) (run_block Y) s =
           s @ ''if('' @ condition @ '')'' @ [End] @ concat xs @
           ''else()'' @ [End] @ concat ys @ ''endif()'' @ [End]"
  using assms by (simp add: Add_IfElse_def run_block_emits)

theorem Add_IfElse_nesting_witness:
  "Add_IfElse ''NOT MSVC''
     (run_block [Add_Indentation 1, Add_Literal ''x'', Add_Newline 1])
     (run_block [Add_Comment ''y'']) ''p'' =
   ''p'' @ ''if(NOT MSVC)'' @ [End] @ [CHR 0x09] @ ''x'' @ [End] @ ''else()'' @ [End] @
   ''# y'' @ [End] @ ''endif()'' @ [End]"
proof -
  have x: "list_all2 emits [Add_Indentation 1, Add_Literal ''x'', Add_Newline 1]
             [[CHR 0x09], ''x'', [End]]"
    by (simp add: emits_def Add_Indentation_def Add_Literal_def Add_Newline_def)
  have y: "list_all2 emits [Add_Comment ''y''] [''# y'' @ [End]]"
    by (simp add: emits_def Add_Comment_def)
  show ?thesis
    using Add_IfElse_nesting [OF x y, of "''NOT MSVC''" "''p''"] by simp
qed
subsection \<open>Writing a file\<close>

lemma set_contents_key [simp]: "fst (set_contents c t ke) = fst ke"
  by (simp add: set_contents_def)

lemma map_of_map_set_contents:
  "map_of (map (set_contents c t) al) k =
     (if k = c then (if c \<in> fst ` set al then Some (File t) else None) else map_of al k)"
  by (induction al) (force simp: set_contents_def image_iff)+

lemma map_of_put:
  "map_of (nodes (put c t fs)) k = (if k = c then Some (File t) else map_of (nodes fs) k)"
proof (cases "c \<in> fst ` set (nodes fs)")
  case True
  then show ?thesis by (simp add: put_def map_of_map_set_contents)
next
  case False
  then have "map_of (nodes fs) c = None" by (simp add: map_of_eq_None_iff)
  with False show ?thesis by (auto simp: put_def map_add_def split: option.splits)
qed

lemma cwd_put [simp]: "cwd (put c t fs) = cwd fs"
  by (simp add: put_def)

lemma name_max_put [simp]: "name_max (put c t fs) = name_max fs"
  by (simp add: put_def)

lemma path_max_put [simp]: "path_max (put c t fs) = path_max fs"
  by (simp add: put_def)


lemma lookup_put:
  "lookup (put c t fs) k =
     (if k = [] then Some Dir else if k = c then Some (File t) else lookup fs k)"
  by (simp add: lookup_def map_of_put)

lemma is_dir_put: "\<not> is_dir fs c \<Longrightarrow> is_dir (put c t fs) k = is_dir fs k"
  by (auto simp: is_dir_def lookup_def map_of_put)

lemma walk_put: "\<not> is_dir fs c \<Longrightarrow> walk (put c t fs) cur ns = walk fs cur ns"
  by (induction ns arbitrary: cur) (simp_all add: is_dir_put)

lemma path_lookup_put: "\<not> is_dir fs c \<Longrightarrow> path_lookup (put c t fs) p = path_lookup fs p"
  by (simp add: path_lookup_def walk_put)

lemma resolve_put: "\<not> is_dir fs c \<Longrightarrow> resolve (put c t fs) p = resolve fs p"
  by (simp add: resolve_def path_lookup_put)

lemma resolve_Some: "(resolve fs p = Some c) = (path_lookup fs p = At c)"
  by (simp add: resolve_def split: resolution.splits)

lemma put_put: "put c t (put c t' fs) = put c t fs"
proof (cases "c \<in> fst ` set (nodes fs)")
  case True
  then show ?thesis
    by (simp add: put_def image_comp comp_def set_contents_def)
next
  case False
  then have "map (set_contents c t) (nodes fs) = nodes fs"
    by (intro map_idI) (auto simp: set_contents_def intro: rev_image_eqI)
  with False show ?thesis
    by (simp add: put_def set_contents_def)
qed


lemma put_present:
  "c \<in> fst ` set (nodes fs) \<Longrightarrow> nodes (put c t fs) = map (set_contents c t) (nodes fs)"
  by (simp add: put_def)

lemma open_loc_Some:
  "open_loc fs p = Some c \<Longrightarrow>
     resolve fs p = Some c \<and> \<not> is_dir fs c \<and> last (split_path p) \<notin> {[], ''.'', ''..''}"
  by (auto simp: open_loc_def ofstream_open_def split: option.splits if_splits)

lemma ofstream_open_eq:
  "ofstream_open p fs = (open_loc fs p, put_opt (open_loc fs p) [] fs)"
  by (auto simp: open_loc_def ofstream_open_def split: option.splits)

lemma with_emitter_eq:
  "with_emitter p body fs =
     put_opt (open_loc fs p) (body (put_opt (open_loc fs p) [] fs) []) fs"
  by (cases "open_loc fs p") (simp_all add: with_emitter_def ofstream_open_eq put_put)


text \<open>Path strings and their components.\<close>

lemma split_path_nonempty [simp]: "split_path p \<noteq> []"
  by (induction p) (auto split: list.splits)

lemma split_path_append: "split_path (a @ CHR ''/'' # b) = split_path a @ split_path b"
  by (induction a) (auto split: list.splits)

lemma split_path_no_slash: "CHR ''/'' \<notin> set p \<Longrightarrow> split_path p = [p]"
  by (induction p) (auto split: list.splits)

lemma walk_append:
  "walk fs cur (xs @ ys) =
     (case walk fs cur xs of At c \<Rightarrow> walk fs c ys | NotFound \<Rightarrow> NotFound | Failure \<Rightarrow> Failure)"
  by (induction xs arbitrary: cur) auto

lemma walk_last:
  "walk fs cur ns = At c \<Longrightarrow> ns \<noteq> [] \<Longrightarrow> last ns \<notin> {[], ''.'', ''..''} \<Longrightarrow>
     c \<noteq> [] \<and> last c = last ns"
proof (induction ns arbitrary: cur)
  case Nil
  then show ?case by simp
next
  case (Cons n ns)
  show ?case
  proof (cases "ns = []")
    case True
    with Cons.prems show ?thesis by (auto split: if_splits)
  next
    case False
    with Cons.prems have "\<exists>cur'. walk fs cur' ns = At c"
      by (auto split: if_splits)
    then obtain cur' where "walk fs cur' ns = At c" ..
    with Cons.IH [of cur'] Cons.prems False show ?thesis by simp
  qed
qed

lemma resolve_last:
  "resolve fs p = Some c \<Longrightarrow> last (split_path p) \<notin> {[], ''.'', ''..''} \<Longrightarrow>
     c \<noteq> [] \<and> last c = last (split_path p)"
  unfolding resolve_Some path_lookup_def
  by (auto split: if_splits dest!: walk_last)

lemma open_loc_last:
  "open_loc fs p = Some c \<Longrightarrow> c \<noteq> [] \<and> last c = last (split_path p)"
  using open_loc_Some [of fs p c] resolve_last [of fs p c] by simp

text \<open>Reading back what an emitter wrote.\<close>

lemma read_file_put:
  assumes "resolve fs p = Some c" and "\<not> is_dir fs c"
  shows "read_file (put c t fs) p = Some t"
proof -
  from assms(2) have "c \<noteq> []" by (auto simp: is_dir_def lookup_def)
  then have "lookup (put c t fs) c = Some (File t)" by (simp add: lookup_put)
  with assms show ?thesis by (simp add: read_file_def resolve_put)
qed

lemma read_file_with_emitter:
  assumes "open_loc fs p = Some c"
  shows "read_file (with_emitter p body fs) p = Some (body (put c [] fs) [])"
  using open_loc_Some [OF assms] assms
  by (simp add: with_emitter_eq read_file_put)
subsection \<open>The text of a sequence of emitter calls\<close>

lemma emits_appending: "emits call t \<Longrightarrow> appending call"
  by (auto simp: appending_def)

lemma fold_append_each:
  "fold (\<lambda>x t. t @ f x) xs s = s @ concat (map f xs)"
  by (induction xs arbitrary: s) simp_all

lemma run_block_append: "run_block (xs @ ys) s = run_block ys (run_block xs s)"
  by (simp add: run_block_def)

lemma appending_texts: "list_all appending calls \<Longrightarrow> \<exists>texts. list_all2 emits calls texts"
proof (induction calls)
  case Nil
  then show ?case by simp
next
  case (Cons call calls)
  then obtain t texts where "emits call t" "list_all2 emits calls texts"
    by (auto simp: appending_def)
  then have "list_all2 emits (call # calls) (t # texts)" by simp
  then show ?case ..
qed

lemma run_block_appending:
  assumes "list_all appending calls"
  shows "run_block calls s = s @ run_block calls []"
proof -
  from appending_texts [OF assms] obtain texts where "list_all2 emits calls texts" ..
  then have "run_block calls s = s @ concat texts" "run_block calls [] = concat texts"
    by (simp_all add: run_block_emits)
  then show ?thesis by simp
qed

lemma appending_run_block: "list_all appending calls \<Longrightarrow> appending (run_block calls)"
  using appending_texts [of calls] emits_run_block by (auto simp: appending_def)

lemma appending_primitives:
  "appending (Add_Header core)"
  "appending (Add_Literal literal)"
  "appending (Add_Indentation amount)"
  "appending (Add_Newline amount)"
  "appending (Add_Comment comment)"
  "appending (Add_CmakeMinimumRequired version)"
  "appending (Add_Project target)"
  "appending (Add_SetCmakeCxxStandard val)"
  "appending (Add_SetCmakeArchiveOutputDirectory dir)"
  "appending (Add_SetCmakeLibraryOutputDirectory dir)"
  "appending (Add_SetCmakeRuntimeOutputDirectory dir)"
  "appending (Add_SetTargetProperties target property pval)"
  "appending (Add_AddSubdirectory source)"
  "appending (Add_TargetIncludeDirectories target mode directory)"
  "appending (Begin_TargetIncludeDirectories target mode)"
  "appending End_TargetIncludeDirectories"
  by (simp_all add: appending_def emits_def Add_Header_def Add_Literal_def Add_Indentation_def
        Add_Newline_def Add_Comment_def Add_CmakeMinimumRequired_def Add_Project_def
        Add_SetCmakeCxxStandard_def Add_SetCmakeArchiveOutputDirectory_def
        Add_SetCmakeLibraryOutputDirectory_def Add_SetCmakeRuntimeOutputDirectory_def
        Add_SetTargetProperties_def Add_AddSubdirectory_def Add_TargetIncludeDirectories_def
        Begin_TargetIncludeDirectories_def End_TargetIncludeDirectories_def)

lemma Add_AddLibrary_text:
  "Add_AddLibrary target type sources s =
     s @ ''add_library('' @ target @ '' '' @ type @ concat (map (\<lambda>source. '' '' @ source) sources) @
     '')'' @ [End]"
  by (simp add: Add_AddLibrary_def fold_append_each)

lemma Add_AddExecutable_text:
  "Add_AddExecutable target sources s =
     s @ ''add_executable('' @ target @ concat (map (\<lambda>source. '' '' @ source) sources) @
     '')'' @ [End]"
  by (simp add: Add_AddExecutable_def fold_append_each)

lemma Add_TargetLinkLibraries_text:
  "Add_TargetLinkLibraries target libraries s =
     s @ ''target_link_libraries('' @ target @
     concat (map (\<lambda>library. '' '' @ library) libraries) @ '')'' @ [End]"
  by (simp add: Add_TargetLinkLibraries_def fold_append_each)

lemma Add_AddSubdirectories_text:
  "Add_AddSubdirectories sources s =
     s @ concat (map (\<lambda>source. ''add_subdirectory('' @ source @ '')'' @ [End]) sources)"
  unfolding Add_AddSubdirectories_def
  by (induction sources arbitrary: s) (simp_all add: Add_AddSubdirectory_def)

lemma appending_lists:
  "appending (Add_AddLibrary target type sources)"
  "appending (Add_AddExecutable target sources)"
  "appending (Add_TargetLinkLibraries target sources)"
  "appending (Add_AddSubdirectories sources)"
  by (simp_all add: appending_def emits_def Add_AddLibrary_text Add_AddExecutable_text
        Add_TargetLinkLibraries_text Add_AddSubdirectories_text)

lemma appending_Add_If: "appending lambda \<Longrightarrow> appending (Add_If condition lambda)"
  unfolding appending_def by (blast intro: emits_Add_If)

lemma appending_Add_IfElse:
  "appending ifTrue \<Longrightarrow> appending ifFalse \<Longrightarrow> appending (Add_IfElse condition ifTrue ifFalse)"
  unfolding appending_def by (blast intro: emits_Add_IfElse)

lemma appending_SourceCMakeFile:
  "list_all appending (SourceCMakeFile core props sourceFiles deps)"
  by (simp add: SourceCMakeFile_def Let_def appending_primitives appending_lists
        appending_Add_IfElse appending_run_block)

lemma appending_RootCMakeFile: "list_all appending (RootCMakeFile core props)"
  by (simp add: RootCMakeFile_def appending_primitives appending_Add_If appending_run_block)
subsection \<open>The source-target file\<close>

lemma SourceCMakeFile_library_text:
  assumes "GetType (project props) \<noteq> Executable"
  shows "run_block (SourceCMakeFile core props sourceFiles deps) [] =
           run_block (take 4 (SourceCMakeFile core props sourceFiles deps)) [] @
           ''add_library('' @ GetName (project props) @ '' '' @
             GetTypeString core (GetType (project props)) @
             concat (map (\<lambda>source. '' '' @ source) sourceFiles) @ '')'' @ [End] @
           run_block (drop 5 (SourceCMakeFile core props sourceFiles deps)) []"
proof -
  let ?L = "SourceCMakeFile core props sourceFiles deps"
  let ?decl = "Add_AddLibrary (GetName (project props))
                 (GetTypeString core (GetType (project props))) sourceFiles"
  have split: "?L = take 4 ?L @ [?decl] @ drop 5 ?L"
    using assms by (simp add: SourceCMakeFile_def Let_def)
  have "list_all appending ?L" by (rule appending_SourceCMakeFile)
  then have "list_all appending (drop 5 ?L)"
    by (auto simp: list_all_iff dest: in_set_dropD)
  then have rest: "\<And>s. run_block (drop 5 ?L) s = s @ run_block (drop 5 ?L) []"
    by (rule run_block_appending)
  have "run_block ?L [] = run_block (take 4 ?L @ [?decl] @ drop 5 ?L) []"
    using split by simp
  also have "\<dots> = run_block (drop 5 ?L) (?decl (run_block (take 4 ?L) []))"
    by (simp add: run_block_append) (simp add: run_block_def)
  also have "\<dots> = ?decl (run_block (take 4 ?L) []) @ run_block (drop 5 ?L) []"
    by (rule rest)
  finally show ?thesis by (simp add: Add_AddLibrary_text)
qed

text \<open>
  C6. For a project of type \<^verbatim>\<open>StaticLibrary\<close>, the source-target file that
  \<^verbatim>\<open>GenerateCMakeFiles\<close> writes has, after its four opening directives, the target
  declaration \<^verbatim>\<open>add_library(<name> <kind> <sources>)\<close>: it names the text of the library
  kind, and its sources are the discovered source file names, one space before each, each
  discovered file once and in discovery order.
\<close>

theorem library_target_declaration:
  assumes "GetType (project props) = StaticLibrary"
    and "GetName (project props) \<noteq> []"
    and "recursive_directory_iterator (files w) (GetName (project props) @ ''/Source'') =
           Some found"
    and "fst (ofstream_open (GetName (project props) @ ''/Source/CMakeLists.txt'') (files w)) \<noteq>
           None"
  shows "\<exists>w'. GenerateCMakeFiles core props w = Inr (True, w') \<and>
           read_file (files w') (GetName (project props) @ ''/Source/CMakeLists.txt'') =
             Some (run_block
                     (take 4 (SourceCMakeFile core props (collect_sources found) (dependencies w)))
                     [] @
                   ''add_library('' @ GetName (project props) @ '' '' @
                     GetTypeString core StaticLibrary @
                     concat (map (\<lambda>source. '' '' @ source) (collect_sources found)) @
                     '')'' @ [End] @
                   run_block
                     (drop 5 (SourceCMakeFile core props (collect_sources found) (dependencies w)))
                     [])"
proof -
  let ?path = "GetName (project props) @ ''/Source/CMakeLists.txt''"
  let ?L = "SourceCMakeFile core props (collect_sources found) (dependencies w)"
  from assms(4) obtain c where c: "open_loc (files w) ?path = Some c"
    by (auto simp: open_loc_def)
  have run: "GenerateCMakeFiles core props w =
               Inr (True, w\<lparr>files := with_emitter ?path (\<lambda>fs. run_block ?L) (files w)\<rparr>)"
    using assms(2,3)
    by (simp add: GenerateCMakeFiles_def Let_def RequireProjectName_def GetDependencies_def)
  have "read_file (with_emitter ?path (\<lambda>fs. run_block ?L) (files w)) ?path =
          Some (run_block ?L [])"
    using c by (rule read_file_with_emitter)
  moreover have "GetType (project props) \<noteq> Executable" using assms(1) by simp
  ultimately show ?thesis
    using run SourceCMakeFile_library_text [of props core "collect_sources found" "dependencies w"]
      assms(1)
    by simp
qed

lemma example_resolve:
  "resolve example_files ''app/Source'' = Some [''work'', ''app'', ''Source'']"
  "resolve example_files ''app/Source/CMakeLists.txt'' =
     Some [''work'', ''app'', ''Source'', ''CMakeLists.txt'']"
  "resolve example_files ''app/Dependencies/CMakeLists.txt'' =
     Some [''work'', ''app'', ''Dependencies'', ''CMakeLists.txt'']"
  by (simp_all add: resolve_def path_lookup_def example_files_def is_dir_def lookup_def)

lemma example_source_listing:
  "recursive_directory_iterator example_files ''app/Source'' =
     Some [[''work'', ''app'', ''Source'', ''main.cpp'']]"
  unfolding recursive_directory_iterator_def example_resolve
  by (simp add: is_dir_def lookup_def example_files_def)

lemma example_source_open:
  "fst (ofstream_open ''app/Source/CMakeLists.txt'' example_files) =
     Some [''work'', ''app'', ''Source'', ''CMakeLists.txt'']"
  unfolding ofstream_open_def example_resolve
  by (simp add: is_dir_def lookup_def example_files_def)

lemma example_collect:
  "collect_sources [[''work'', ''app'', ''Source'', ''main.cpp'']] = [''main.cpp'']"
  by (simp add: collect_sources_def extension_def find_last_of_def)

theorem library_target_declaration_witness:
  "\<exists>w'. GenerateCMakeFiles example_core \<lparr>nextArguments = [], project = example_project\<rparr>
           example_world = Inr (True, w') \<and>
         read_file (files w') ''app/Source/CMakeLists.txt'' =
           Some (run_block
                   (take 4 (SourceCMakeFile example_core
                              \<lparr>nextArguments = [], project = example_project\<rparr> [''main.cpp'']
                              [''A''])) [] @
                 ''add_library(app StaticLibrary main.cpp)'' @ [End] @
                 run_block
                   (drop 5 (SourceCMakeFile example_core
                              \<lparr>nextArguments = [], project = example_project\<rparr> [''main.cpp'']
                              [''A''])) [])"
  using library_target_declaration
          [of "\<lparr>nextArguments = [], project = example_project\<rparr>" example_world
              "[[''work'', ''app'', ''Source'', ''main.cpp'']]" example_core]
  by (simp add: example_project_def example_world_def example_source_listing
        example_source_open example_collect example_core_def)
subsection \<open>The dependency-aggregation file\<close>

lemma include_entries_complete:
  "probes_complete fs projectName deps \<Longrightarrow>
   include_entries core fs projectName deps s =
     Inr (s @ concat (map (include_line core fs projectName) deps))"
proof (induction deps arbitrary: s)
  case Nil
  then show ?case by simp
next
  case (Cons d deps)
  let ?p = "path_append (path_append projectName ''Dependencies'') d"
  from Cons.prems have rest: "probes_complete fs projectName deps"
    by (simp add: probes_complete_def)
  from Cons.prems have here: "fs_exists fs ?p = Inr False \<or>
      fs_exists fs ?p = Inr True \<and> \<not> isl (fs_exists fs (path_append ?p ''include''))"
    by (simp add: probes_complete_def Let_def)
  have "fs_exists fs ?p = Inr False \<or>
        (\<exists>b. fs_exists fs ?p = Inr True \<and> fs_exists fs (path_append ?p ''include'') = Inr b)"
  proof (cases "fs_exists fs (path_append ?p ''include'')")
    case (Inl e)
    with here show ?thesis by simp
  next
    case (Inr b)
    with here show ?thesis by simp
  qed
  then consider "fs_exists fs ?p = Inr False"
    | b where "fs_exists fs ?p = Inr True" "fs_exists fs (path_append ?p ''include'') = Inr b"
    by blast
  then show ?case
  proof cases
    case 1
    then show ?thesis by (simp add: Let_def Cons.IH [OF rest] include_line_def)
  next
    case 2
    then show ?thesis
      by (simp add: Let_def Cons.IH [OF rest] include_line_def run_block_def
            Add_Indentation_def Add_Literal_def Add_Newline_def)
  qed
qed

lemma include_entries_throws:
  "\<not> probes_complete fs projectName deps \<Longrightarrow>
   isl (include_entries core fs projectName deps s)"
proof (induction deps arbitrary: s)
  case Nil
  then show ?case by (simp add: probes_complete_def)
next
  case (Cons d deps)
  let ?p = "path_append (path_append projectName ''Dependencies'') d"
  show ?case
  proof (cases "fs_exists fs ?p")
    case (Inl e)
    then show ?thesis by (simp add: Let_def)
  next
    case (Inr found)
    show ?thesis
    proof (cases found)
      case False
      with Inr Cons.prems have "\<not> probes_complete fs projectName deps"
        by (simp add: probes_complete_def Let_def)
      with Inr False Cons.IH show ?thesis by (simp add: Let_def)
    next
      case True
      show ?thesis
      proof (cases "fs_exists fs (path_append ?p ''include'')")
        case (Inl e)
        with Inr True show ?thesis by (simp add: Let_def)
      next
        case inc: (Inr b)
        with Inr True Cons.prems have "\<not> probes_complete fs projectName deps"
          by (simp add: probes_complete_def Let_def)
        with Inr True inc Cons.IH show ?thesis by (simp add: Let_def)
      qed
    qed
  qed
qed

lemma DependencyCMakeFile_text:
  assumes "deps \<noteq> []" and "probes_complete fs (GetName (project props)) deps"
  shows "DependencyCMakeFile core props deps fs [] =
           Inr (run_block
                  [Add_Header core,
                   Add_CmakeMinimumRequired (GetCmakeVersion (project props)),
                   Add_Project (GetName (project props)),
                   Add_Newline (defaultNewlines core)] [] @
                concat (map (\<lambda>package. ''add_subdirectory('' @ package @ '')'' @ [End]) deps) @
                replicate (nat (defaultNewlines core)) End @
                ''target_include_directories('' @ GetName (project props) @ '' PUBLIC'' @ [End] @
                concat (map (include_line core fs (GetName (project props))) deps) @
                '')'' @ [End])"
proof -
  let ?A = "[Add_Header core,
             Add_CmakeMinimumRequired (GetCmakeVersion (project props)),
             Add_Project (GetName (project props)),
             Add_Newline (defaultNewlines core)]"
  let ?B = "[Add_AddSubdirectories deps,
             Add_Newline (defaultNewlines core),
             Begin_TargetIncludeDirectories (GetName (project props)) ''PUBLIC'']"
  have B: "\<And>s. run_block ?B s =
             s @ concat (map (\<lambda>package. ''add_subdirectory('' @ package @ '')'' @ [End]) deps) @
             replicate (nat (defaultNewlines core)) End @
             ''target_include_directories('' @ GetName (project props) @ '' PUBLIC'' @ [End]"
    by (simp add: run_block_def Add_AddSubdirectories_text Add_Newline_def
          Begin_TargetIncludeDirectories_def)
  have "DependencyCMakeFile core props deps fs [] =
          (case include_entries core fs (GetName (project props)) deps
                  (run_block ?B (run_block ?A [])) of
             Inl x \<Rightarrow> Inl x
           | Inr s1 \<Rightarrow> Inr (End_TargetIncludeDirectories s1))"
    using assms(1) by (simp add: DependencyCMakeFile_def Let_def)
  then show ?thesis
    unfolding include_entries_complete [OF assms(2)] B
    by (simp add: End_TargetIncludeDirectories_def)
qed

lemma DependencyCMakeFile_throws:
  assumes "deps \<noteq> []" and "\<not> probes_complete fs (GetName (project props)) deps"
  shows "isl (DependencyCMakeFile core props deps fs s)"
proof -
  let ?s = "run_block
              [Add_AddSubdirectories deps,
               Add_Newline (defaultNewlines core),
               Begin_TargetIncludeDirectories (GetName (project props)) ''PUBLIC'']
              (run_block
                 [Add_Header core,
                  Add_CmakeMinimumRequired (GetCmakeVersion (project props)),
                  Add_Project (GetName (project props)),
                  Add_Newline (defaultNewlines core)] s)"
  from include_entries_throws [OF assms(2), of core ?s]
  obtain x where "include_entries core fs (GetName (project props)) deps ?s = Inl x"
    by (cases "include_entries core fs (GetName (project props)) deps ?s") simp_all
  with assms(1) show ?thesis by (simp add: DependencyCMakeFile_def Let_def)
qed

lemma with_probing_emitter_eq:
  "with_probing_emitter core p body fs =
     (case body (put_opt (open_loc fs p) [] fs) [] of
        Inl (e, t) \<Rightarrow> Inl (e, put_opt (open_loc fs p) (flushed core t) fs)
      | Inr t \<Rightarrow> Inr (put_opt (open_loc fs p) t fs))"
  by (cases "open_loc fs p")
     (simp_all add: with_probing_emitter_def ofstream_open_eq put_put
        split: sum.splits prod.splits)

lemma lookup_put_exists:
  "(\<exists>y. lookup (put c t fs) k = Some y) = ((\<exists>y. lookup fs k = Some y) \<or> k = c)"
  by (simp add: lookup_put) (simp add: lookup_def)

lemma fs_exists_put:
  "\<not> is_dir fs c \<Longrightarrow>
   fs_exists (put c t fs) p = (if path_lookup fs p = At c then Inr True else fs_exists fs p)"
  by (cases "path_lookup fs p") (auto simp: fs_exists_def path_lookup_put lookup_put_exists)

lemma last_split_path_slash: "last (split_path (a @ CHR ''/'' # b)) = last (split_path b)"
  by (simp add: split_path_append)

lemma last_split_path_include: "last (split_path (path_append x ''include'')) = ''include''"
proof -
  have plain: "split_path ''include'' = [''include'']" by simp
  consider "x = []" | "x \<noteq> []" "last x = CHR ''/''" | "x \<noteq> []" "last x \<noteq> CHR ''/''"
    by blast
  then show ?thesis
  proof cases
    case 1
    then show ?thesis by (simp add: path_append_def)
  next
    case 2
    then obtain y where "x = y @ ''/''" by (metis append_butlast_last_id)
    then have "path_append x ''include'' = y @ CHR ''/'' # ''include''"
      by (simp add: path_append_def)
    then show ?thesis using plain by (simp only: last_split_path_slash) simp
  next
    case 3
    then have "path_append x ''include'' = x @ CHR ''/'' # ''include''"
      by (simp add: path_append_def)
    then show ?thesis using plain by (simp only: last_split_path_slash) simp
  qed
qed

lemma last_split_path_CMakeLists:
  "last (split_path (x @ ''/Dependencies/CMakeLists.txt'')) = ''CMakeLists.txt''"
  "last (split_path (x @ ''/Source/CMakeLists.txt'')) = ''CMakeLists.txt''"
  "last (split_path ''CMakeLists.txt'') = ''CMakeLists.txt''"
proof -
  have plain: "split_path ''CMakeLists.txt'' = [''CMakeLists.txt'']" by simp
  have "x @ ''/Dependencies/CMakeLists.txt'' = (x @ ''/Dependencies'') @ CHR ''/'' # ''CMakeLists.txt''"
    by simp
  then show "last (split_path (x @ ''/Dependencies/CMakeLists.txt'')) = ''CMakeLists.txt''"
    using plain by (simp only: last_split_path_slash) simp
  have "x @ ''/Source/CMakeLists.txt'' = (x @ ''/Source'') @ CHR ''/'' # ''CMakeLists.txt''"
    by simp
  then show "last (split_path (x @ ''/Source/CMakeLists.txt'')) = ''CMakeLists.txt''"
    using plain by (simp only: last_split_path_slash) simp
  show "last (split_path ''CMakeLists.txt'') = ''CMakeLists.txt''" using plain by simp
qed

lemma include_probe_unchanged:
  assumes "open_loc fs0 (x @ ''/Dependencies/CMakeLists.txt'') = Some c"
  shows "fs_exists (put c t fs0) (path_append y ''include'') =
         fs_exists fs0 (path_append y ''include'')"
proof -
  from open_loc_Some [OF assms] have nd: "\<not> is_dir fs0 c" by simp
  from open_loc_last [OF assms] have c: "last c = ''CMakeLists.txt''"
    by (simp add: last_split_path_CMakeLists)
  have "path_lookup fs0 (path_append y ''include'') \<noteq> At c"
  proof
    assume "path_lookup fs0 (path_append y ''include'') = At c"
    then have r: "resolve fs0 (path_append y ''include'') = Some c" by (simp add: resolve_Some)
    have "last c = ''include''"
      using resolve_last [OF r] by (simp add: last_split_path_include)
    with c show False by simp
  qed
  with nd show ?thesis by (simp add: fs_exists_put)
qed
subsection \<open>The presence check and the paths of the generator\<close>

lemma walk_empty_component:
  "ys \<noteq> [] \<Longrightarrow> walk fs cur ([] # ys) = walk fs cur ys"
  by (cases ys) auto

lemma walk_skip_empty:
  assumes "ys \<noteq> []"
  shows "walk fs cur (xs @ [] # ys) = walk fs cur (xs @ ys)"
  using assms
  by (simp add: walk_append walk_empty_component del: walk.simps split: resolution.splits)

lemma path_lookup_double_slash:
  assumes "b \<noteq> []" and "path_lookup fs (a @ ''//'' @ b) = At c"
  shows "path_lookup fs (a @ ''/'' @ b) = At c"
proof -
  have 1: "split_path (a @ ''//'' @ b) = split_path a @ [] # split_path b"
    using split_path_append [of a "CHR ''/'' # b"] by simp
  have 2: "split_path (a @ ''/'' @ b) = split_path a @ split_path b"
    using split_path_append [of a b] by simp
  have hd: "hd (a @ ''//'' @ b) = hd (a @ ''/'' @ b)" by (cases a) simp_all
  from assms(2) have "\<not> path_max fs \<le> length (a @ ''//'' @ b)"
    by (auto simp: path_lookup_def split: if_splits)
  then have short: "\<not> path_max fs \<le> length (a @ ''/'' @ b)" by simp
  from assms(2) have "walk fs (if hd (a @ ''//'' @ b) = CHR ''/'' then [] else cwd fs)
                        (split_path a @ [] # split_path b) = At c"
    unfolding path_lookup_def 1 by (simp split: if_splits)
  then have "walk fs (if hd (a @ ''/'' @ b) = CHR ''/'' then [] else cwd fs)
               (split_path a @ split_path b) = At c"
    unfolding hd by (simp add: walk_skip_empty)
  with short show ?thesis
    unfolding path_lookup_def 2 by simp
qed

lemma check_path_lookup:
  assumes "projectName \<noteq> []"
    and "path_lookup fs (path_append (projectName @ ''/Dependencies'') package) = At c"
  shows "path_lookup fs (path_append (path_append projectName ''Dependencies'') package) = At c"
proof (cases "last projectName = CHR ''/''")
  case False
  with assms show ?thesis by (simp add: path_append_def)
next
  case True
  with assms obtain a where a: "projectName = a @ ''/''"
    by (metis append_butlast_last_id)
  show ?thesis
  proof (cases "package \<noteq> [] \<and> hd package = CHR ''/''")
    case True
    with assms(2) show ?thesis by (simp add: path_append_def)
  next
    case False
    then have "path_append (projectName @ ''/Dependencies'') package =
                 a @ ''//'' @ (''Dependencies/'' @ package)"
      and "path_append (path_append projectName ''Dependencies'') package =
                 a @ ''/'' @ (''Dependencies/'' @ package)"
      by (auto simp: path_append_def a)
    with assms(2) show ?thesis
      using path_lookup_double_slash [of "''Dependencies/'' @ package" fs a c] by simp
  qed
qed

lemma fs_exists_True:
  "(fs_exists fs p = Inr True) = (\<exists>c. path_lookup fs p = At c \<and> lookup fs c \<noteq> None)"
  by (cases "path_lookup fs p") (simp_all add: fs_exists_def)

lemma check_path_exists:
  "projectName \<noteq> [] \<Longrightarrow>
   fs_exists fs (path_append (projectName @ ''/Dependencies'') package) = Inr True \<Longrightarrow>
   fs_exists fs (path_append (path_append projectName ''Dependencies'') package) = Inr True"
  unfolding fs_exists_True by (blast dest: check_path_lookup)

lemma walk_prefix_is_dir:
  "walk fs cur (xs @ [n]) = At c \<Longrightarrow> \<exists>c'. walk fs cur xs = At c' \<and> is_dir fs c'"
  by (auto simp: walk_append split: resolution.splits if_splits)

lemma open_parent_exists:
  assumes "projectName \<noteq> []"
    and "open_loc fs (projectName @ ''/Dependencies/CMakeLists.txt'') = Some c"
  shows "fs_exists fs (projectName @ ''/Dependencies'') = Inr True"
proof -
  let ?d = "projectName @ ''/Dependencies''"
  let ?f = "projectName @ ''/Dependencies/CMakeLists.txt''"
  have sp: "split_path ?f = split_path ?d @ [''CMakeLists.txt'']"
    using split_path_append [of ?d "''CMakeLists.txt''"] by simp
  have hd: "hd ?f = hd ?d"
    using assms(1) by (cases projectName) simp_all
  from open_loc_Some [OF assms(2)]
  have f: "path_lookup fs ?f = At c" by (simp add: resolve_Some)
  then have "\<not> path_max fs \<le> length ?f"
    by (auto simp: path_lookup_def split: if_splits)
  then have short: "\<not> path_max fs \<le> length ?d" by simp
  from f have "walk fs (if hd ?d = CHR ''/'' then [] else cwd fs)
               (split_path ?d @ [''CMakeLists.txt'']) = At c"
    unfolding path_lookup_def sp hd by (simp split: if_splits)
  from walk_prefix_is_dir [OF this]
  obtain c' where "walk fs (if hd ?d = CHR ''/'' then [] else cwd fs) (split_path ?d) = At c'"
    and "is_dir fs c'" by blast
  with short show ?thesis
    by (simp add: fs_exists_def path_lookup_def is_dir_def)
qed

lemma files_MG_LOG [simp]: "files (MG_LOG m w) = files w"
  by (simp add: MG_LOG_def)

lemma fold_MG_LOG:
  "fold (\<lambda>x. MG_LOG (f x)) xs w = w\<lparr>console := console w @ map (\<lambda>x. LOG (f x)) xs\<rparr>"
  by (induction xs arbitrary: w) (simp_all add: MG_LOG_def)

lemma check_dependencies_eq:
  "check_dependencies path deps has w =
     (let w' = fold (\<lambda>package. MG_LOG (''Missing dependency: '' @ path_append path package))
                 (missing (files w) path (probed (files w) path deps)) w
      in if probed (files w) path deps = deps then
           Inr (has \<or> missing (files w) path deps \<noteq> [], w')
         else Inl (filesystem_error, w'))"
proof (induction deps arbitrary: has w)
  case Nil
  then show ?case by (simp add: probed_def missing_def)
next
  case (Cons d deps)
  show ?case
  proof (cases "fs_exists (files w) (path_append path d)")
    case (Inl e)
    then show ?thesis by (cases e) (simp add: probed_def missing_def)
  next
    case (Inr found)
    show ?thesis
    proof (cases found)
      case True
      with Inr show ?thesis
        using Cons.IH [of has w] by (simp add: probed_def missing_def Let_def)
    next
      case False
      with Inr show ?thesis
        using Cons.IH [of True "MG_LOG (''Missing dependency: '' @ path_append path d) w"]
        by (simp add: probed_def missing_def Let_def)
    qed
  qed
qed

lemma check_passed:
  assumes "check_dependencies path deps False w = Inr (False, w')"
    and "package \<in> set deps"
  shows "fs_exists (files w) (path_append path package) = Inr True"
proof -
  from assms(1) have all: "probed (files w) path deps = deps"
    and none: "missing (files w) path deps = []"
    by (simp_all add: check_dependencies_eq Let_def split: if_splits)
  from all assms(2) have "\<not> isl (fs_exists (files w) (path_append path package))"
    by (simp add: probed_def takeWhile_eq_all_conv)
  moreover from none assms(2) have "fs_exists (files w) (path_append path package) \<noteq> Inr False"
    by (simp add: missing_def filter_empty_conv)
  ultimately show ?thesis
    by (cases "fs_exists (files w) (path_append path package)") auto
qed

lemma presence_check_covers:
  assumes "GetName (project props) \<noteq> []"
    and "open_loc (files w) (GetName (project props) @ ''/Dependencies/CMakeLists.txt'') = Some c"
    and "missing_dependencies (GetName (project props)) w = Inr (False, w')"
    and "package \<in> set (dependencies w)"
  shows "fs_exists (put c t (files w))
           (path_append (path_append (GetName (project props)) ''Dependencies'') package) =
         Inr True"
proof -
  have "fs_exists (files w) (GetName (project props) @ ''/Dependencies'') = Inr True"
    using assms(1,2) by (rule open_parent_exists)
  with assms(3)
  have "check_dependencies (GetName (project props) @ ''/Dependencies'') (dependencies w) False w =
          Inr (False, w')"
    by (simp add: missing_dependencies_def Let_def GetDependencies_def)
  from check_passed [OF this assms(4)]
  have "fs_exists (files w)
          (path_append (path_append (GetName (project props)) ''Dependencies'') package) =
        Inr True"
    using assms(1) by (simp add: check_path_exists)
  moreover from open_loc_Some [OF assms(2)] have "\<not> is_dir (files w) c" by simp
  ultimately show ?thesis by (simp add: fs_exists_put)
qed

text \<open>The file that \<^verbatim>\<open>GenerateDependencyCMakeFiles\<close> leaves when every probe completes, and
  how it ends when one does not.\<close>

lemma dependency_file_text:
  assumes "GetName (project props) \<noteq> []" and "dependencies w \<noteq> []"
    and "ofstream_open (GetName (project props) @ ''/Dependencies/CMakeLists.txt'') (files w) =
           (Some c, fs)"
    and "probes_complete fs (GetName (project props)) (dependencies w)"
  shows "GenerateDependencyCMakeFiles core props w =
           Inr (True, w\<lparr>files := put c
             (run_block
                [Add_Header core,
                 Add_CmakeMinimumRequired (GetCmakeVersion (project props)),
                 Add_Project (GetName (project props)),
                 Add_Newline (defaultNewlines core)] [] @
              concat (map (\<lambda>package. ''add_subdirectory('' @ package @ '')'' @ [End])
                        (dependencies w)) @
              replicate (nat (defaultNewlines core)) End @
              ''target_include_directories('' @ GetName (project props) @ '' PUBLIC'' @ [End] @
              concat (map (include_line core fs (GetName (project props))) (dependencies w)) @
              '')'' @ [End]) (files w)\<rparr>)"
proof -
  let ?path = "GetName (project props) @ ''/Dependencies/CMakeLists.txt''"
  from assms(3) have c: "open_loc (files w) ?path = Some c"
    by (simp add: open_loc_def)
  with assms(3) have fs: "fs = put c [] (files w)"
    by (simp add: ofstream_open_eq)
  show ?thesis
    using assms(1) c
    by (simp add: GenerateDependencyCMakeFiles_def Let_def RequireProjectName_def
          GetDependencies_def with_probing_emitter_eq fs
          DependencyCMakeFile_text [OF assms(2,4), unfolded fs])
qed

lemma dependency_file_throws:
  assumes "GetName (project props) \<noteq> []" and "dependencies w \<noteq> []"
    and "\<not> probes_complete (snd (ofstream_open
                 (GetName (project props) @ ''/Dependencies/CMakeLists.txt'') (files w)))
               (GetName (project props)) (dependencies w)"
  shows "isl (GenerateDependencyCMakeFiles core props w)"
proof -
  let ?path = "GetName (project props) @ ''/Dependencies/CMakeLists.txt''"
  let ?fs = "put_opt (open_loc (files w) ?path) [] (files w)"
  from assms(3) have "\<not> probes_complete ?fs (GetName (project props)) (dependencies w)"
    by (simp add: ofstream_open_eq)
  from DependencyCMakeFile_throws [OF assms(2) this, of core "[]"]
  obtain x where "DependencyCMakeFile core props (dependencies w) ?fs [] = Inl x"
    by (cases "DependencyCMakeFile core props (dependencies w) ?fs []") simp_all
  with assms(1) show ?thesis
    by (simp add: GenerateDependencyCMakeFiles_def Let_def RequireProjectName_def
          GetDependencies_def with_probing_emitter_eq split: prod.splits)
qed

lemma include_line_fun:
  "include_line core fs projectName =
     (\<lambda>package.
        let packagePath = path_append (path_append projectName ''Dependencies'') package
        in if fs_exists fs packagePath = Inr True then
             replicate (nat (defaultIndentation core)) (CHR 0x09) @ [CHR 0x22] @ package @
             (if fs_exists fs (path_append packagePath ''include'') = Inr True then ''/include''
              else []) @
             [CHR 0x22] @ replicate (nat (defaultNewlines core)) End
           else [])"
  by (rule ext) (simp add: include_line_def)

text \<open>
  C7, as the code has it. With a non-empty dependency list, when none of its probes of
  the file tree throws, \<^verbatim>\<open>GenerateDependencyCMakeFiles\<close> returns and the
  dependency-aggregation file it leaves is: its opening directives; one
  \<^verbatim>\<open>add_subdirectory\<close> directive per declared dependency, in order; a blank separation;
  one \<^verbatim>\<open>target_include_directories\<close> block, opened once and closed once, holding one
  quoted line per dependency for which an entry exists at generation time (\<open>fs\<close>, the file
  tree while the file is open), in order. The line of a dependency ends in
  \<^verbatim>\<open>/include\<close> exactly when an entry named \<^verbatim>\<open>include\<close>, of any kind, exists under that
  dependency's directory; that probe gives the same answer on the file tree before the
  call. When the presence check of \<^verbatim>\<open>HandleGenerateCommand\<close> finds nothing missing,
  every declared dependency has its line.
\<close>

theorem dependency_file_contents:
  assumes "GetName (project props) \<noteq> []" and "dependencies w \<noteq> []"
    and "ofstream_open (GetName (project props) @ ''/Dependencies/CMakeLists.txt'') (files w) =
           (Some c, fs)"
    and "probes_complete fs (GetName (project props)) (dependencies w)"
  shows "\<not> isl (GenerateDependencyCMakeFiles core props w) \<and>
         read_file (files (ending (GenerateDependencyCMakeFiles core props w)))
           (GetName (project props) @ ''/Dependencies/CMakeLists.txt'') =
         Some (run_block
                 [Add_Header core,
                  Add_CmakeMinimumRequired (GetCmakeVersion (project props)),
                  Add_Project (GetName (project props)),
                  Add_Newline (defaultNewlines core)] [] @
               concat (map (\<lambda>package. ''add_subdirectory('' @ package @ '')'' @ [End])
                         (dependencies w)) @
               replicate (nat (defaultNewlines core)) End @
               ''target_include_directories('' @ GetName (project props) @ '' PUBLIC'' @ [End] @
               concat (map (\<lambda>package.
                         let packagePath =
                               path_append (path_append (GetName (project props)) ''Dependencies'')
                                 package
                         in if fs_exists fs packagePath = Inr True then
                              replicate (nat (defaultIndentation core)) (CHR 0x09) @ [CHR 0x22] @
                              package @
                              (if fs_exists fs (path_append packagePath ''include'') = Inr True
                               then ''/include'' else []) @
                              [CHR 0x22] @ replicate (nat (defaultNewlines core)) End
                            else [])
                       (dependencies w)) @
               '')'' @ [End]) \<and>
         (\<forall>packagePath. fs_exists fs (path_append packagePath ''include'') =
                        fs_exists (files w) (path_append packagePath ''include'')) \<and>
         ((\<exists>w'. missing_dependencies (GetName (project props)) w = Inr (False, w')) \<longrightarrow>
            (\<forall>package\<in>set (dependencies w).
               fs_exists fs
                 (path_append (path_append (GetName (project props)) ''Dependencies'') package) =
               Inr True))"
proof -
  let ?path = "GetName (project props) @ ''/Dependencies/CMakeLists.txt''"
  from assms(3) have c: "open_loc (files w) ?path = Some c"
    by (simp add: open_loc_def)
  with assms(3) have fs: "fs = put c [] (files w)"
    by (simp add: ofstream_open_eq)
  from open_loc_Some [OF c] have r: "resolve (files w) ?path = Some c" "\<not> is_dir (files w) c"
    by simp_all
  note run = dependency_file_text [OF assms, of core]
  have a: "\<not> isl (GenerateDependencyCMakeFiles core props w)"
    unfolding run by simp
  have b: "read_file (files (ending (GenerateDependencyCMakeFiles core props w))) ?path =
      Some (run_block
              [Add_Header core,
               Add_CmakeMinimumRequired (GetCmakeVersion (project props)),
               Add_Project (GetName (project props)),
               Add_Newline (defaultNewlines core)] [] @
            concat (map (\<lambda>package. ''add_subdirectory('' @ package @ '')'' @ [End])
                      (dependencies w)) @
            replicate (nat (defaultNewlines core)) End @
            ''target_include_directories('' @ GetName (project props) @ '' PUBLIC'' @ [End] @
            concat (map (\<lambda>package.
                      let packagePath =
                            path_append (path_append (GetName (project props)) ''Dependencies'')
                              package
                      in if fs_exists fs packagePath = Inr True then
                           replicate (nat (defaultIndentation core)) (CHR 0x09) @ [CHR 0x22] @
                           package @
                           (if fs_exists fs (path_append packagePath ''include'') = Inr True
                            then ''/include'' else []) @
                           [CHR 0x22] @ replicate (nat (defaultNewlines core)) End
                         else [])
                    (dependencies w)) @
            '')'' @ [End])"
    unfolding run include_line_fun by (simp add: ending_def read_file_put [OF r])
  have same: "\<forall>packagePath. fs_exists fs (path_append packagePath ''include'') =
                   fs_exists (files w) (path_append packagePath ''include'')"
    unfolding fs using include_probe_unchanged [OF c] by simp
  have d: "(\<exists>w'. missing_dependencies (GetName (project props)) w = Inr (False, w')) \<longrightarrow>
                   (\<forall>package\<in>set (dependencies w).
                      fs_exists fs
                        (path_append (path_append (GetName (project props)) ''Dependencies'')
                           package) = Inr True)"
    unfolding fs using presence_check_covers [OF assms(1) c] by blast
  show ?thesis by (intro conjI a b same d)
qed

lemma example_dependency_open:
  "ofstream_open ''app/Dependencies/CMakeLists.txt'' example_files =
     (Some [''work'', ''app'', ''Dependencies'', ''CMakeLists.txt''],
      put [''work'', ''app'', ''Dependencies'', ''CMakeLists.txt''] [] example_files)"
  unfolding ofstream_open_def example_resolve
  by (simp add: is_dir_def lookup_def example_files_def)

lemma example_dependency_probes:
  "fs_exists (put [''work'', ''app'', ''Dependencies'', ''CMakeLists.txt''] [] example_files)
     ''app/Dependencies/A'' = Inr True"
  "fs_exists (put [''work'', ''app'', ''Dependencies'', ''CMakeLists.txt''] [] example_files)
     ''app/Dependencies/A/include'' = Inr True"
  by (simp_all add: fs_exists_def path_lookup_def put_def example_files_def is_dir_def lookup_def)

lemma example_no_missing: "missing_dependencies ''app'' example_world = Inr (False, example_world)"
  by (simp add: missing_dependencies_def GetDependencies_def example_world_def path_append_def
        fs_exists_def path_lookup_def example_files_def is_dir_def lookup_def)

theorem dependency_file_contents_witness:
  "read_file
     (files (ending (GenerateDependencyCMakeFiles example_core
                       \<lparr>nextArguments = [], project = example_project\<rparr> example_world)))
     ''app/Dependencies/CMakeLists.txt'' =
   Some (run_block
           [Add_Header example_core, Add_CmakeMinimumRequired ''3.16'', Add_Project ''app'',
            Add_Newline 1] [] @
         ''add_subdirectory(A)'' @ [End] @ [End] @
         ''target_include_directories(app PUBLIC'' @ [End] @
         [CHR 0x09, CHR 0x22] @ ''A/include'' @ [CHR 0x22, End] @
         '')'' @ [End]) \<and>
   probes_complete (snd (ofstream_open ''app/Dependencies/CMakeLists.txt'' example_files))
     ''app'' [''A''] \<and>
   missing_dependencies ''app'' example_world = Inr (False, example_world) \<and>
   fs_exists (snd (ofstream_open ''app/Dependencies/CMakeLists.txt'' example_files))
     ''app/Dependencies/A'' = Inr True"
proof -
  have complete: "probes_complete
      (put [''work'', ''app'', ''Dependencies'', ''CMakeLists.txt''] [] example_files) ''app'' [''A'']"
    by (simp add: probes_complete_def path_append_def example_dependency_probes)
  have "GetName (project \<lparr>nextArguments = [], project = example_project\<rparr>) \<noteq> []"
    and "dependencies example_world \<noteq> []"
    and "ofstream_open
           (GetName (project \<lparr>nextArguments = [], project = example_project\<rparr>) @
            ''/Dependencies/CMakeLists.txt'') (files example_world) =
         (Some [''work'', ''app'', ''Dependencies'', ''CMakeLists.txt''],
          put [''work'', ''app'', ''Dependencies'', ''CMakeLists.txt''] [] example_files)"
    and "probes_complete
           (put [''work'', ''app'', ''Dependencies'', ''CMakeLists.txt''] [] example_files)
           (GetName (project \<lparr>nextArguments = [], project = example_project\<rparr>))
           (dependencies example_world)"
    using complete
    by (simp_all add: example_project_def example_world_def example_dependency_open)
  from dependency_file_contents [OF this, of example_core]
  have "read_file
          (files (ending (GenerateDependencyCMakeFiles example_core
                            \<lparr>nextArguments = [], project = example_project\<rparr> example_world)))
          ''app/Dependencies/CMakeLists.txt'' =
        Some (run_block
                [Add_Header example_core, Add_CmakeMinimumRequired ''3.16'', Add_Project ''app'',
                 Add_Newline 1] [] @
              ''add_subdirectory(A)'' @ [End] @ [End] @
              ''target_include_directories(app PUBLIC'' @ [End] @
              [CHR 0x09, CHR 0x22] @ ''A/include'' @ [CHR 0x22, End] @
              '')'' @ [End])"
    by (simp add: example_project_def example_world_def example_dependency_probes
          path_append_def example_core_def)
  then show ?thesis
    using complete
    by (simp add: example_no_missing example_dependency_open example_dependency_probes)
qed

text \<open>
  The dependency \<^verbatim>\<open>H\<close> has no subdirectory \<^verbatim>\<open>include\<close>: the entry of that name in its
  directory is a regular file. Its line in the generated file ends in \<^verbatim>\<open>/include\<close> all
  the same.
\<close>

lemma header_dependency_open:
  "ofstream_open ''app/Dependencies/CMakeLists.txt'' header_files =
     (Some [''work'', ''app'', ''Dependencies'', ''CMakeLists.txt''],
      put [''work'', ''app'', ''Dependencies'', ''CMakeLists.txt''] [] header_files)"
  by (simp add: ofstream_open_def resolve_def path_lookup_def is_dir_def lookup_def
        header_files_def)

lemma header_dependency_probes:
  "fs_exists (put [''work'', ''app'', ''Dependencies'', ''CMakeLists.txt''] [] header_files)
     ''app/Dependencies/A'' = Inr True"
  "fs_exists (put [''work'', ''app'', ''Dependencies'', ''CMakeLists.txt''] [] header_files)
     ''app/Dependencies/A/include'' = Inr True"
  "fs_exists (put [''work'', ''app'', ''Dependencies'', ''CMakeLists.txt''] [] header_files)
     ''app/Dependencies/H'' = Inr True"
  "fs_exists (put [''work'', ''app'', ''Dependencies'', ''CMakeLists.txt''] [] header_files)
     ''app/Dependencies/H/include'' = Inr True"
  by (simp_all add: fs_exists_def path_lookup_def put_def header_files_def is_dir_def lookup_def)

theorem include_regular_file_counterexample:
  "lookup header_files [''work'', ''app'', ''Dependencies'', ''H'', ''include''] =
     Some (File ''#pragma once'') \<and>
   \<not> is_dir header_files [''work'', ''app'', ''Dependencies'', ''H'', ''include''] \<and>
   read_file
     (files (ending (GenerateDependencyCMakeFiles example_core
                       \<lparr>nextArguments = [], project = example_project\<rparr> header_world)))
     ''app/Dependencies/CMakeLists.txt'' =
   Some (run_block
           [Add_Header example_core, Add_CmakeMinimumRequired ''3.16'', Add_Project ''app'',
            Add_Newline 1] [] @
         ''add_subdirectory(A)'' @ [End] @ ''add_subdirectory(H)'' @ [End] @ [End] @
         ''target_include_directories(app PUBLIC'' @ [End] @
         [CHR 0x09, CHR 0x22] @ ''A/include'' @ [CHR 0x22, End] @
         [CHR 0x09, CHR 0x22] @ ''H/include'' @ [CHR 0x22, End] @
         '')'' @ [End])"
proof -
  let ?c = "[''work'', ''app'', ''Dependencies'', ''CMakeLists.txt'']"
  have entry: "lookup header_files [''work'', ''app'', ''Dependencies'', ''H'', ''include''] =
                 Some (File ''#pragma once'')"
    by (simp add: lookup_def header_files_def)
  have complete: "probes_complete (put ?c [] header_files) ''app'' [''A'', ''H'']"
    by (simp add: probes_complete_def path_append_def header_dependency_probes)
  have "GetName (project \<lparr>nextArguments = [], project = example_project\<rparr>) \<noteq> []"
    and "dependencies header_world \<noteq> []"
    and "ofstream_open
           (GetName (project \<lparr>nextArguments = [], project = example_project\<rparr>) @
            ''/Dependencies/CMakeLists.txt'') (files header_world) =
         (Some ?c, put ?c [] header_files)"
    and "probes_complete (put ?c [] header_files)
           (GetName (project \<lparr>nextArguments = [], project = example_project\<rparr>))
           (dependencies header_world)"
    using complete
    by (simp_all add: example_project_def header_world_def header_dependency_open)
  note run = dependency_file_text [OF this, of example_core]
  have r: "resolve header_files ''app/Dependencies/CMakeLists.txt'' = Some ?c"
    "\<not> is_dir header_files ?c"
    by (simp_all add: resolve_def path_lookup_def is_dir_def lookup_def header_files_def)
  have "read_file
          (files (ending (GenerateDependencyCMakeFiles example_core
                            \<lparr>nextArguments = [], project = example_project\<rparr> header_world)))
          ''app/Dependencies/CMakeLists.txt'' =
        Some (run_block
                [Add_Header example_core, Add_CmakeMinimumRequired ''3.16'', Add_Project ''app'',
                 Add_Newline 1] [] @
              ''add_subdirectory(A)'' @ [End] @ ''add_subdirectory(H)'' @ [End] @ [End] @
              ''target_include_directories(app PUBLIC'' @ [End] @
              [CHR 0x09, CHR 0x22] @ ''A/include'' @ [CHR 0x22, End] @
              [CHR 0x09, CHR 0x22] @ ''H/include'' @ [CHR 0x22, End] @
              '')'' @ [End])"
    unfolding run
    by (simp add: ending_def read_file_put [OF r] include_line_def Let_def
          example_project_def header_world_def header_dependency_probes
          path_append_def example_core_def)
  with entry show ?thesis by (simp add: is_dir_def)
qed
subsection \<open>The presence check of generate\<close>

lemma probed_all:
  "(probed fs path deps = deps) =
     (\<forall>package\<in>set deps. \<not> isl (fs_exists fs (path_append path package)))"
  by (simp add: probed_def takeWhile_eq_all_conv)

lemma missing_some:
  assumes "package \<in> set deps" and "fs_exists fs (path_append path package) \<noteq> Inr True"
    and "probed fs path deps = deps"
  shows "missing fs path deps \<noteq> []"
proof -
  from assms(1,3) have "\<not> isl (fs_exists fs (path_append path package))"
    by (simp add: probed_all)
  with assms(2) have "fs_exists fs (path_append path package) = Inr False"
    by (cases "fs_exists fs (path_append path package)") auto
  with assms(1) show ?thesis by (auto simp: missing_def filter_empty_conv)
qed

lemma presence_check_eq:
  assumes "fs_exists (files w) (projectName @ ''/Dependencies'') = Inr True"
    and "package \<in> set (dependencies w)"
    and "fs_exists (files w) (path_append (projectName @ ''/Dependencies'') package) \<noteq> Inr True"
  shows "missing_dependencies projectName w =
     (let dependenciesPath = projectName @ ''/Dependencies'';
          reached = probed (files w) dependenciesPath (dependencies w);
          w' = w\<lparr>console := console w @
                    map (\<lambda>package. LOG (''Missing dependency: '' @
                                          path_append dependenciesPath package))
                      (missing (files w) dependenciesPath reached)\<rparr>
      in if reached = dependencies w then Inr (True, w') else Inl (filesystem_error, w'))"
  using assms missing_some [OF assms(2,3)]
  by (simp add: missing_dependencies_def Let_def GetDependencies_def check_dependencies_eq
        fold_MG_LOG)

text \<open>
  C1, as the code has it. When the project's dependency directory exists and the probe of
  at least one declared dependency does not find it, \<^verbatim>\<open>HandleGenerateCommand\<close> ends
  without writing anything and without running \<^verbatim>\<open>cmake\<close>: the file tree and the
  dependency document are as before. Run at the project root with a known project name,
  it probes the dependencies in the order of the dependency list. When no probe throws,
  it returns, and what it has added to the console is the announcement, one line
  \<^verbatim>\<open>Missing dependency: <path>\<close> for each missing dependency in that order, and the
  failure message. When a probe throws, the handler is terminated by the exception there:
  the console holds the announcement and the lines of the missing dependencies that
  precede the one whose probe threw.
\<close>

theorem generate_aborts_on_missing_dependency:
  assumes "fs_exists (files w) (GetName (project props) @ ''/Dependencies'') = Inr True"
    and "\<exists>package\<in>set (dependencies w).
           fs_exists (files w)
             (path_append (GetName (project props) @ ''/Dependencies'') package) \<noteq> Inr True"
  shows "files (final_world (HandleGenerateCommand core sys props w)) = files w \<and>
         dependencies (final_world (HandleGenerateCommand core sys props w)) = dependencies w \<and>
         (IsRootLevel w \<and> GetName (project props) \<noteq> [] \<longrightarrow>
            HandleGenerateCommand core sys props w =
              (let dependenciesPath = GetName (project props) @ ''/Dependencies'';
                   reached = probed (files w) dependenciesPath (dependencies w);
                   w' = w\<lparr>console :=
                            console w @ [LOG ''Generating project files...''] @
                            map (\<lambda>package. LOG (''Missing dependency: '' @
                                                  path_append dependenciesPath package))
                              (missing (files w) dependenciesPath reached)\<rparr>
               in if reached = dependencies w then
                    Inr (w'\<lparr>console :=
                              console w' @
                              [LOG (''Generate failed due to missing dependencies. Run '' @
                                    [CHR 0x60] @ ''magnet pull'' @ [CHR 0x60] @
                                    '' to install them.'')]\<rparr>)
                  else Inl (filesystem_error, w')))"
proof -
  let ?name = "GetName (project props)"
  let ?a = "MG_LOG ''Generating project files...'' w"
  from assms(2) obtain package where package: "package \<in> set (dependencies w)"
    "fs_exists (files w) (path_append (?name @ ''/Dependencies'') package) \<noteq> Inr True"
    by blast
  have a: "files ?a = files w" "dependencies ?a = dependencies w"
    "console ?a = console w @ [LOG ''Generating project files...'']"
    by (simp_all add: MG_LOG_def)
  have m: "missing_dependencies ?name ?a =
     (let dependenciesPath = ?name @ ''/Dependencies'';
          reached = probed (files w) dependenciesPath (dependencies w);
          w' = ?a\<lparr>console := console ?a @
                    map (\<lambda>package. LOG (''Missing dependency: '' @
                                          path_append dependenciesPath package))
                      (missing (files w) dependenciesPath reached)\<rparr>
      in if reached = dependencies w then Inr (True, w') else Inl (filesystem_error, w'))"
    using presence_check_eq [of ?a ?name package] assms(1) package by (simp add: a)
  show ?thesis
  proof (cases "IsRootLevel w \<and> ?name \<noteq> []")
    case True
    then have "IsRootLevel ?a" by (simp add: IsRootLevel_def)
    with True show ?thesis
      by (simp add: HandleGenerateCommand_def Let_def RequireProjectName_def m final_world_def)
         (simp add: MG_LOG_def)
  next
    case False
    then have "\<not> IsRootLevel ?a \<or> ?name = []" by (simp add: IsRootLevel_def)
    with False show ?thesis
      by (auto simp: HandleGenerateCommand_def Let_def RequireProjectName_def MG_LOG_def
            final_world_def)
  qed
qed

text \<open>With \<^verbatim>\<open>A\<close> installed and \<^verbatim>\<open>B\<close> not, generate reports \<^verbatim>\<open>B\<close> and returns. Where the
  probe of the second of three dependencies throws, only the first is reported.\<close>

theorem generate_aborts_on_missing_dependency_witness:
  "fs_exists example_files ''app/Dependencies'' = Inr True \<and>
   fs_exists example_files ''app/Dependencies/B'' = Inr False \<and>
   HandleGenerateCommand example_core succeeding
     \<lparr>nextArguments = [], project = example_project\<rparr>
     (example_world\<lparr>dependencies := [''A'', ''B'']\<rparr>) =
   Inr (example_world
          \<lparr>dependencies := [''A'', ''B''],
             console :=
               [LOG ''Generating project files...'',
                LOG ''Missing dependency: app/Dependencies/B'',
                LOG (''Generate failed due to missing dependencies. Run '' @ [CHR 0x60] @
                     ''magnet pull'' @ [CHR 0x60] @ '' to install them.'')]\<rparr>) \<and>
   fs_exists (files cramped_world) ''app/Dependencies/a-dependency-with-a-long-name'' =
     Inl filesystem_error \<and>
   HandleGenerateCommand example_core succeeding
     \<lparr>nextArguments = [], project = example_project\<rparr> cramped_world =
   Inl (filesystem_error,
        cramped_world
          \<lparr>console :=
               [LOG ''Generating project files...'',
                LOG ''Missing dependency: app/Dependencies/B'']\<rparr>)"
proof -
  have e: "fs_exists example_files ''app/Dependencies'' = Inr True"
    "fs_exists example_files ''app/Dependencies/A'' = Inr True"
    "fs_exists example_files ''app/Dependencies/B'' = Inr False"
    "fs_exists example_files ''.magnet'' = Inr True"
    by (simp_all add: fs_exists_def path_lookup_def example_files_def is_dir_def lookup_def)
  have c: "fs_exists (files cramped_world) ''app/Dependencies'' = Inr True"
    "fs_exists (files cramped_world) ''app/Dependencies/B'' = Inr False"
    "fs_exists (files cramped_world) ''app/Dependencies/a-dependency-with-a-long-name'' =
       Inl filesystem_error"
    "fs_exists (files cramped_world) ''.magnet'' = Inr True"
    by (simp_all add: fs_exists_def path_lookup_def cramped_world_def example_files_def
          is_dir_def lookup_def)
  have d: "dependencies cramped_world = [''B'', ''a-dependency-with-a-long-name'', ''C'']"
    "console cramped_world = []"
    by (simp_all add: cramped_world_def)
  have 1: "HandleGenerateCommand example_core succeeding
             \<lparr>nextArguments = [], project = example_project\<rparr>
             (example_world\<lparr>dependencies := [''A'', ''B'']\<rparr>) =
           Inr (example_world
                  \<lparr>dependencies := [''A'', ''B''],
                     console :=
                       [LOG ''Generating project files...'',
                        LOG ''Missing dependency: app/Dependencies/B'',
                        LOG (''Generate failed due to missing dependencies. Run '' @ [CHR 0x60] @
                             ''magnet pull'' @ [CHR 0x60] @ '' to install them.'')]\<rparr>)"
    using generate_aborts_on_missing_dependency
            [of "example_world\<lparr>dependencies := [''A'', ''B'']\<rparr>"
                "\<lparr>nextArguments = [], project = example_project\<rparr>" example_core succeeding]
    by (simp add: example_project_def example_world_def e path_append_def IsRootLevel_def
          probed_def missing_def)
  have 2: "HandleGenerateCommand example_core succeeding
             \<lparr>nextArguments = [], project = example_project\<rparr> cramped_world =
           Inl (filesystem_error,
                cramped_world
                  \<lparr>console :=
                       [LOG ''Generating project files...'',
                        LOG ''Missing dependency: app/Dependencies/B'']\<rparr>)"
    using generate_aborts_on_missing_dependency
            [of cramped_world "\<lparr>nextArguments = [], project = example_project\<rparr>"
                example_core succeeding]
    by (simp add: example_project_def c d path_append_def IsRootLevel_def probed_def missing_def)
  from 1 2 e(1,3) c(3) show ?thesis by simp
qed
subsection \<open>The three generator calls on the file tree\<close>

lemma generate_files_named:
  assumes "GetName (project props) \<noteq> []"
  shows "generate_files core props w =
           (let fs1 = with_emitter ''CMakeLists.txt'' (\<lambda>fs. run_block (RootCMakeFile core props))
                        (files w)
            in case recursive_directory_iterator fs1 (GetName (project props) @ ''/Source'') of
                 None \<Rightarrow> Inl (filesystem_error, w\<lparr>files := fs1\<rparr>)
               | Some found \<Rightarrow>
                   (case with_probing_emitter core
                           (GetName (project props) @ ''/Dependencies/CMakeLists.txt'')
                           (DependencyCMakeFile core props (dependencies w))
                           (with_emitter (GetName (project props) @ ''/Source/CMakeLists.txt'')
                              (\<lambda>fs. run_block
                                 (SourceCMakeFile core props (collect_sources found)
                                    (dependencies w)))
                              fs1) of
                      Inl (e, fs3) \<Rightarrow> Inl (e, w\<lparr>files := fs3\<rparr>)
                    | Inr fs3 \<Rightarrow> Inr (w\<lparr>files := fs3\<rparr>)))"
  using assms
  by (simp add: generate_files_def GenerateRootCMakeFile_def GenerateCMakeFiles_def
        GenerateDependencyCMakeFiles_def RequireProjectName_def Let_def GetDependencies_def
        split: option.splits sum.splits prod.splits)



lemma bare_generate_files:
  assumes "files w = bare_files" and "dependencies w = [''B'']"
  shows "generate_files example_core \<lparr>nextArguments = [], project = example_project\<rparr> w =
     Inr (w\<lparr>files :=
            bare_files\<lparr>nodes := nodes bare_files @
               [([''work'', ''CMakeLists.txt''],
                 File (run_block (RootCMakeFile example_core
                         \<lparr>nextArguments = [], project = example_project\<rparr>) [])),
                ([''work'', ''app'', ''Source'', ''CMakeLists.txt''],
                 File (run_block (SourceCMakeFile example_core
                         \<lparr>nextArguments = [], project = example_project\<rparr> [''main.cpp'']
                         [''B'']) []))]\<rparr>\<rparr>)"
proof -
  let ?props = "\<lparr>nextArguments = [], project = example_project\<rparr>"
  let ?R = "run_block (RootCMakeFile example_core ?props) []"
  let ?S = "run_block (SourceCMakeFile example_core ?props [''main.cpp''] [''B'']) []"
  let ?fs1 = "bare_files\<lparr>nodes := nodes bare_files @ [([''work'', ''CMakeLists.txt''], File ?R)]\<rparr>"
  let ?fs2 = "bare_files\<lparr>nodes := nodes bare_files @
                 [([''work'', ''CMakeLists.txt''], File ?R),
                  ([''work'', ''app'', ''Source'', ''CMakeLists.txt''], File ?S)]\<rparr>"
  have name: "GetName (project ?props) = ''app''"
    by (simp add: example_project_def)
  have 1: "with_emitter ''CMakeLists.txt'' (\<lambda>fs. run_block (RootCMakeFile example_core ?props))
             bare_files = ?fs1"
    by (simp add: with_emitter_def ofstream_open_def resolve_def path_lookup_def is_dir_def lookup_def put_def
          set_contents_def bare_files_def)
  have 2: "recursive_directory_iterator ?fs1 ''app/Source'' =
             Some [[''work'', ''app'', ''Source'', ''main.cpp'']]"
    by (simp add: recursive_directory_iterator_def resolve_def path_lookup_def is_dir_def lookup_def
          bare_files_def)
  have 3: "collect_sources [[''work'', ''app'', ''Source'', ''main.cpp'']] = [''main.cpp'']"
    by (rule example_collect)
  have 4: "with_emitter ''app/Source/CMakeLists.txt''
             (\<lambda>fs. run_block (SourceCMakeFile example_core ?props [''main.cpp''] [''B'']))
             ?fs1 = ?fs2"
    by (simp add: with_emitter_def ofstream_open_def resolve_def path_lookup_def is_dir_def lookup_def put_def
          set_contents_def bare_files_def)
  have closed: "ofstream_open ''app/Dependencies/CMakeLists.txt'' ?fs2 = (None, ?fs2)"
    by (simp add: ofstream_open_def resolve_def path_lookup_def is_dir_def lookup_def
          bare_files_def)
  have absent: "fs_exists ?fs2 ''app/Dependencies/B'' = Inr False"
    by (simp add: fs_exists_def path_lookup_def is_dir_def lookup_def bare_files_def)
  have 5: "with_probing_emitter example_core ''app/Dependencies/CMakeLists.txt''
             (DependencyCMakeFile example_core ?props [''B'']) ?fs2 = Inr ?fs2"
    using name
    by (simp add: with_probing_emitter_def closed DependencyCMakeFile_def Let_def
          path_append_def absent)
  have named: "GetName (project ?props) \<noteq> []" by (simp add: example_project_def)
  show ?thesis
    unfolding generate_files_named [OF named] name Let_def assms
    by (simp add: 1 2 3 4 5)
qed

text \<open>
  Without a dependency directory the presence check is skipped: with \<^verbatim>\<open>B\<close> declared and
  nothing installed, generate writes the root file. Outside the project root, generate
  returns before the check and says nothing about \<^verbatim>\<open>B\<close>.
\<close>

theorem generate_without_dependency_directory_counterexample:
  "''B'' \<in> set (dependencies bare_world) \<and>
   fs_exists (files bare_world) ''app/Dependencies/B'' = Inr False \<and>
   read_file (files bare_world) ''CMakeLists.txt'' = None \<and>
   read_file
     (files (final_world
        (HandleGenerateCommand example_core succeeding
           \<lparr>nextArguments = [], project = example_project\<rparr> bare_world)))
     ''CMakeLists.txt'' =
     Some (run_block
             (RootCMakeFile example_core \<lparr>nextArguments = [], project = example_project\<rparr>) []) \<and>
   \<not> IsRootLevel outside_world \<and>
   console
     (final_world
        (HandleGenerateCommand example_core succeeding
           \<lparr>nextArguments = [], project = example_project\<rparr> outside_world)) =
     [LOG ''Generating project files...'',
      LOG ''In order to generate, run this command at the root of your project, where .magnet can be found.'']"
proof -
  let ?props = "\<lparr>nextArguments = [], project = example_project\<rparr>"
  let ?a = "MG_LOG ''Generating project files...'' bare_world"
  let ?R = "run_block (RootCMakeFile example_core ?props) []"
  let ?S = "run_block (SourceCMakeFile example_core ?props [''main.cpp''] [''B'']) []"
  let ?fs2 = "bare_files\<lparr>nodes := nodes bare_files @
                 [([''work'', ''CMakeLists.txt''], File ?R),
                  ([''work'', ''app'', ''Source'', ''CMakeLists.txt''], File ?S)]\<rparr>"
  have pre: "fs_exists bare_files ''app/Dependencies'' = Inr False"
    "fs_exists bare_files ''app/Dependencies/B'' = Inr False"
    "fs_exists bare_files ''.magnet'' = Inr True"
    "read_file bare_files ''CMakeLists.txt'' = None"
    by (simp_all add: fs_exists_def read_file_def resolve_def path_lookup_def bare_files_def
          is_dir_def lookup_def)
  have a: "files ?a = bare_files" "dependencies ?a = [''B'']"
    by (simp_all add: MG_LOG_def bare_world_def)
  have gen: "generate_files example_core ?props ?a = Inr (?a\<lparr>files := ?fs2\<rparr>)"
    using a by (rule bare_generate_files)
  have skipped: "missing_dependencies ''app'' ?a = Inr (False, ?a)"
    by (simp add: missing_dependencies_def pre bare_world_def)
  have "files (final_world (HandleGenerateCommand example_core succeeding ?props bare_world)) =
          ?fs2"
    using gen skipped pre(3) a(1)
    by (simp add: HandleGenerateCommand_def run_generation_def IsRootLevel_def
          RequireProjectName_def Let_def example_project_def ExecuteCommand_def succeeding_def
          final_world_def MG_LOG_def)
  moreover have "read_file ?fs2 ''CMakeLists.txt'' = Some ?R"
    by (simp add: read_file_def resolve_def path_lookup_def bare_files_def is_dir_def lookup_def)
  moreover have "\<not> IsRootLevel outside_world"
    by (simp add: IsRootLevel_def outside_world_def fs_exists_def path_lookup_def is_dir_def
          lookup_def)
  moreover from this
  have "console (final_world (HandleGenerateCommand example_core succeeding ?props outside_world)) =
          [LOG ''Generating project files...'',
           LOG ''In order to generate, run this command at the root of your project, where .magnet can be found.'']"
    by (simp add: HandleGenerateCommand_def IsRootLevel_def MG_LOG_def final_world_def
          outside_world_def)
  ultimately show ?thesis
    using pre by (simp add: bare_world_def)
qed
subsection \<open>Storing at the locations of the generated files\<close>






lemma path_lookup_put_opt: "safe fs l \<Longrightarrow> path_lookup (put_opt l t fs) p = path_lookup fs p"
  by (cases l) (simp_all add: path_lookup_put)




lemma cwd_put_opt [simp]: "cwd (put_opt l t fs) = cwd fs"
  by (cases l) simp_all


lemma map_set_opt_None [simp]: "map (set_opt None t) xs = xs"
  by (induction xs) simp_all




lemma set_opt_key [simp]: "fst (set_opt l t ke) = fst ke"
  by (cases l) simp_all


subsection \<open>What generation reads from the file tree\<close>







subsection \<open>Generating twice\<close>








end
